theory Spec2Isabelle
  imports Complex_Main
begin

section \<open>JavaScript values\<close>

text \<open>
  Conventions of the embedding of \<^verbatim>\<open>src/lib/tools.ts\<close> and
  \<^verbatim>\<open>src/app/api/chat/route.ts\<close>.
  \<^item> A JavaScript value of type \<^verbatim>\<open>string | null | undefined\<close> is a
    \<open>string option\<close>; \<open>None\<close> stands for both \<^verbatim>\<open>null\<close> and
    \<^verbatim>\<open>undefined\<close>.
  \<^item> Counts, limits, page numbers and star ratings are \<open>int\<close>.
  \<^item> String literals of the source are written without accents and without emoji
    (the theory is ASCII; an emoji at the start of a message goes together with the
    space after it); \<open>dq\<close> is the double quote. Strings are lists of bytes here and
    of UTF-16 code units in JavaScript, which differs only for the lengths of texts
    that are not ASCII.
  \<^item> Console output is not modelled, but for the one line that announces a tool call
    (see the trace below).
\<close>

definition dq :: string where
  "dq = [CHR 0x22]"

text \<open>\<^verbatim>\<open>x || d\<close> on an optional string: the empty string is falsy.\<close>

definition or_string :: "string option \<Rightarrow> string \<Rightarrow> string" where
  "or_string x d = (case x of None \<Rightarrow> d | Some s \<Rightarrow> if s = [] then d else s)"

text \<open>\<^verbatim>\<open>x || null\<close> on an optional string.\<close>

definition or_null :: "string option \<Rightarrow> string option" where
  "or_null x = (case x of None \<Rightarrow> None | Some s \<Rightarrow> if s = [] then None else Some s)"

text \<open>\<^verbatim>\<open>x || d\<close> on an optional number: \<open>0\<close> is falsy.\<close>

definition or_number :: "int option \<Rightarrow> int \<Rightarrow> int" where
  "or_number x d = (case x of None \<Rightarrow> d | Some n \<Rightarrow> if n = 0 then d else n)"

text \<open>\<^verbatim>\<open>x || null\<close> on an optional number.\<close>

definition num_or_null :: "int option \<Rightarrow> int option" where
  "num_or_null x = (case x of None \<Rightarrow> None | Some n \<Rightarrow> if n = 0 then None else Some n)"

text \<open>Truthiness, as \<^verbatim>\<open>filter(Boolean)\<close>, \<^verbatim>\<open>filter(b => b.rating)\<close> and \<^verbatim>\<open>&&\<close> test it.\<close>

definition truthy_string :: "string option \<Rightarrow> bool" where
  "truthy_string x = (case x of None \<Rightarrow> False | Some s \<Rightarrow> s \<noteq> [])"

definition truthy_num :: "int option \<Rightarrow> bool" where
  "truthy_num x = (case x of None \<Rightarrow> False | Some n \<Rightarrow> n \<noteq> 0)"

text \<open>\<^verbatim>\<open>Array.prototype.join\<close>.\<close>

fun join :: "string \<Rightarrow> string list \<Rightarrow> string" where
  "join sep [] = []"
| "join sep [x] = x"
| "join sep (x # y # ys) = x @ sep @ join sep (y # ys)"

text \<open>\<^verbatim>\<open>String.prototype.includes\<close>: \<open>sub\<close> occurs in \<open>s\<close> as a contiguous run.\<close>

fun str_includes :: "string \<Rightarrow> string \<Rightarrow> bool" where
  "str_includes [] sub = (sub = [])"
| "str_includes (c # cs) sub = (take (length sub) (c # cs) = sub \<or> str_includes cs sub)"

text \<open>
  \<^verbatim>\<open>xs.slice(0, n)\<close>: a negative \<open>n\<close> counts from the end of the array.
\<close>

definition slice0 :: "int \<Rightarrow> 'a list \<Rightarrow> 'a list" where
  "slice0 n xs = (if 0 \<le> n then take (nat n) xs else take (length xs - nat (- n)) xs)"

text \<open>
  Decimal digits, and \<^verbatim>\<open>Number.prototype.toFixed(1)\<close> on the exact value \<open>x\<close> of the
  number: the sign, then the integer \<open>n\<close> nearest to \<open>10 * |x|\<close> (the larger one on a
  tie) written with one digit after the point. (Beyond \<open>10^21\<close> JavaScript switches to
  exponent notation; averages of ratings do not get there.)
\<close>

definition digit_char :: "nat \<Rightarrow> char" where
  "digit_char d = ''0123456789'' ! (d mod 10)"

function show_nat :: "nat \<Rightarrow> string" where
  "show_nat n = (if n < 10 then [digit_char n] else show_nat (n div 10) @ [digit_char (n mod 10)])"
  by pat_completeness auto
termination
  by (relation "measure (\<lambda>n. n)") auto

declare show_nat.simps [simp del]

definition tenths :: "rat \<Rightarrow> nat" where
  "tenths x = nat \<lfloor>10 * \<bar>x\<bar> + 1 / 2\<rfloor>"

definition toFixed1 :: "rat \<Rightarrow> string" where
  "toFixed1 x =
     (if x < 0 then ''-'' else []) @ show_nat (tenths x div 10) @ ''.'' @ [digit_char (tenths x mod 10)]"

section \<open>Data model\<close>

subsection \<open>Google Books volumes\<close>

text \<open>
  The JSON of a volume, with the fields the tools read. \<open>vi_thumbnail\<close> is
  \<^verbatim>\<open>volumeInfo.imageLinks?.thumbnail\<close>.
\<close>

record volume_info =
  vi_title :: "string option"
  vi_authors :: "string list option"
  vi_description :: "string option"
  vi_pageCount :: "int option"
  vi_categories :: "string list option"
  vi_thumbnail :: "string option"
  vi_publishedDate :: "string option"
  vi_averageRating :: "rat option"

record volume =
  v_id :: "string option"
  v_volumeInfo :: "volume_info option"

text \<open>
  The outcome of \<^verbatim>\<open>fetch\<close> followed by \<^verbatim>\<open>response.json()\<close>: the promise rejects
  (network failure, body that is not JSON), the status is not a success
  (\<^verbatim>\<open>!response.ok\<close>), or the decoded body.
\<close>

datatype 'a fetched = Rejected | NotOk nat | OkJson 'a

subsection \<open>Rows of the two tables\<close>

text \<open>
  The columns are the ones \<^verbatim>\<open>tools.ts\<close> writes in \<^verbatim>\<open>create\<close>. The columns the
  storage fills in by itself (row id, creation time) are left out: no tool reads them.
\<close>

record reading_list_item =
  li_googleId :: string
  li_title :: "string option"
  li_authors :: "string option"
  li_thumbnail :: "string option"
  li_priority :: string
  li_notes :: "string option"

record read_book =
  rb_googleId :: string
  rb_title :: "string option"
  rb_authors :: "string option"
  rb_thumbnail :: "string option"
  rb_pageCount :: "int option"
  rb_rating :: "int option"
  rb_review :: "string option"

subsection \<open>Results of the six tools\<close>

record found_book =
  fb_id :: "string option"
  fb_title :: "string option"
  fb_authors :: string
  fb_thumbnail :: "string option"
  fb_description :: string

text \<open>
  \<open>SearchNone\<close> is \<^verbatim>\<open>{books: [], message}\<close>, \<open>SearchFound\<close> is \<^verbatim>\<open>{books, count}\<close>,
  \<open>SearchError\<close> is \<^verbatim>\<open>{error, books: []}\<close>.
\<close>

datatype search_result =
    SearchNone "found_book list" string
  | SearchFound "found_book list" nat
  | SearchError string "found_book list"

fun sr_books :: "search_result \<Rightarrow> found_book list" where
  "sr_books (SearchNone bs m) = bs"
| "sr_books (SearchFound bs n) = bs"
| "sr_books (SearchError e bs) = bs"

datatype rating_field = RatingNumber rat | RatingText string

record book_details =
  bd_id :: "string option"
  bd_title :: "string option"
  bd_authors :: string
  bd_description :: string
  bd_pageCount :: int
  bd_categories :: string
  bd_thumbnail :: "string option"
  bd_publishedDate :: string
  bd_averageRating :: rating_field

text \<open>\<open>DetailsError e\<close> is \<^verbatim>\<open>{error: e}\<close>; \<^verbatim>\<open>'error' in bookInfo\<close> tests for it.\<close>

datatype details_result = DetailsError string | Details book_details

text \<open>
  \<open>AddUnavailable\<close> is \<^verbatim>\<open>{error, suggestion}\<close>, \<open>AddOk\<close> is
  \<^verbatim>\<open>{success: true, message, book}\<close>, \<open>AddFail\<close> is \<^verbatim>\<open>{success: false, error}\<close>.
\<close>

datatype add_result =
    AddUnavailable string string
  | AddOk string reading_list_item
  | AddFail string

text \<open>\<open>ListOk\<close> is \<^verbatim>\<open>{books, count}\<close>.\<close>

datatype list_result = ListOk "reading_list_item list" nat | ListError string "reading_list_item list"

fun lr_books :: "list_result \<Rightarrow> reading_list_item list" where
  "lr_books (ListOk bs n) = bs"
| "lr_books (ListError e bs) = bs"

text \<open>
  \<open>MarkOk\<close> is \<^verbatim>\<open>{success: true, message, book}\<close>, \<open>MarkFail\<close> is
  \<^verbatim>\<open>{success: false, error}\<close>.
\<close>

datatype mark_result = MarkOk string read_book | MarkFail string

text \<open>
  A value stored in \<^verbatim>\<open>authorCounts\<close>. The object is declared \<^verbatim>\<open>Record<string, number>\<close>,
  but \<^verbatim>\<open>+ 1\<close> on a member inherited from \<^verbatim>\<open>Object.prototype\<close> concatenates, so that a
  count can be a string.
\<close>

datatype count_value = CountNumber nat | CountText string

text \<open>\<open>topAuthors\<close> is the list of \<^verbatim>\<open>{author, count}\<close>.\<close>

record reading_stats =
  totalBooksRead :: nat
  totalPages :: int
  averageRating :: string
  topAuthors :: "(string \<times> count_value) list"

datatype stats_result = StatsOk reading_stats | StatsError string

text \<open>The statistics of a result, when it has them.\<close>

fun stats_of :: "stats_result \<Rightarrow> reading_stats option" where
  "stats_of (StatsOk st) = Some st"
| "stats_of (StatsError err) = None"

text \<open>What the dispatcher of \<^verbatim>\<open>route.ts\<close> binds to \<^verbatim>\<open>result\<close>; \<open>RError e\<close> is \<^verbatim>\<open>{error: e}\<close>.\<close>

datatype tool_result =
    RSearch search_result
  | RDetails details_result
  | RAdd add_result
  | RList list_result
  | RMark mark_result
  | RStats stats_result
  | RError string

text \<open>The \<^verbatim>\<open>error\<close> property of a result, when it has one.\<close>

fun error_of :: "tool_result \<Rightarrow> string option" where
  "error_of (RSearch (SearchError e bs)) = Some e"
| "error_of (RDetails (DetailsError e)) = Some e"
| "error_of (RAdd (AddUnavailable e sg)) = Some e"
| "error_of (RAdd (AddFail e)) = Some e"
| "error_of (RList (ListError e bs)) = Some e"
| "error_of (RMark (MarkFail e)) = Some e"
| "error_of (RStats (StatsError e)) = Some e"
| "error_of (RError e) = Some e"
| "error_of r = None"

subsection \<open>Chat messages and LLM requests\<close>

text \<open>
  \<^verbatim>\<open>route.ts\<close> reads \<^verbatim>\<open>args.query\<close>, \<^verbatim>\<open>args.bookId\<close>, ... off an untyped object. The
  record gives each property the type that the callee's TypeScript signature declares:
  the two required parameters are strings, every optional parameter is an option.
\<close>

record tool_args =
  a_query :: string
  a_maxResults :: "int option"
  a_bookId :: string
  a_priority :: "string option"
  a_notes :: "string option"
  a_limit :: "int option"
  a_rating :: "int option"
  a_review :: "string option"
  a_period :: "string option"

text \<open>
  The text \<^verbatim>\<open>toolCall.function.arguments\<close>, identified by what \<^verbatim>\<open>JSON.parse\<close> makes of
  it: text that is not JSON (\<^verbatim>\<open>JSON.parse\<close> throws a SyntaxError), the text
  \<^verbatim>\<open>null\<close>, or the text of an object.
\<close>

datatype arguments_text = Malformed | JsonNull | JsonObject tool_args

record tool_call =
  tc_id :: string
  tc_name :: string
  tc_arguments :: arguments_text

record assistant_message =
  am_content :: "string option"
  am_tool_calls :: "tool_call list option"

text \<open>
  The three shapes of message that \<^verbatim>\<open>route.ts\<close> sends: \<^verbatim>\<open>{role, content}\<close>, the
  assistant's message handed back as received, and
  \<^verbatim>\<open>{role: "tool", tool_call_id, content: JSON.stringify(result)}\<close>. The content of a tool
  message is kept as the result it serialises.
\<close>

datatype chat_message =
    Message string string
  | AssistantMessage assistant_message
  | ToolMessage string tool_result

record tool_definition =
  td_name :: string
  td_properties :: "string list"
  td_required :: "string list"

text \<open>
  The body of a chat-completion request: the messages and, when the request has the
  property, \<^verbatim>\<open>tools\<close>. (\<^verbatim>\<open>model\<close> and \<^verbatim>\<open>temperature: 0.7\<close> are the same in both
  requests and are left out.)
\<close>

record llm_request =
  lr_messages :: "chat_message list"
  lr_tools :: "tool_definition list option"

subsection \<open>The outside world\<close>

text \<open>
  The trace of a run, oldest event first: every outbound HTTP request, and
  \<open>Executing name\<close> where \<^verbatim>\<open>route.ts\<close> announces that it runs a tool call
  (the \<^verbatim>\<open>console.log\<close> of line 126; no other console output is modelled).
\<close>

datatype event =
    VolumesSearch string int
  | VolumeGet string
  | ChatCompletion llm_request
  | Executing string

text \<open>
  The services behind \<^verbatim>\<open>fetch\<close> answer a request as they please; the answer may depend
  on everything that happened before. A chat completion answers with the messages of
  its \<^verbatim>\<open>choices\<close>. \<open>number_divide\<close> is \<^verbatim>\<open>/\<close> on two integral JavaScript numbers:
  IEEE-754 arithmetic is not modelled, so the quotient is whatever this function says.
  Where a property speaks of the quotient, it assumes what IEEE-754 guarantees: the
  double nearest to the exact quotient, which is within the relative error \<open>2^-53\<close>.
\<close>

record env =
  volumes_search :: "event list \<Rightarrow> string \<Rightarrow> int \<Rightarrow> volume list option fetched"
  volumes_get :: "event list \<Rightarrow> string \<Rightarrow> volume fetched"
  chat_completions :: "event list \<Rightarrow> llm_request \<Rightarrow> assistant_message list fetched"
  number_divide :: "int \<Rightarrow> int \<Rightarrow> rat"

record state =
  readingListItem :: "reading_list_item list"
  readBook :: "read_book list"
  trace :: "event list"

definition emit :: "event \<Rightarrow> state \<Rightarrow> state" where
  "emit ev s = s\<lparr>trace := trace s @ [ev]\<rparr>"

subsection \<open>Storage\<close>

text \<open>
  Modelled from the spec: the Prisma schema and client are not under \<^verbatim>\<open>src/\<close>. Each
  table is the list of its rows, oldest first. Both tables are
  "keyed by an externally-assigned book identifier with a uniqueness constraint":
  \<^verbatim>\<open>create\<close> of a row whose key is already there throws the error with code
  \<^verbatim>\<open>P2002\<close> that \<^verbatim>\<open>tools.ts\<close> tests for, and leaves the table as it is. The
  storage is taken to be available: it throws nothing else, so that the \<^verbatim>\<open>catch\<close> of
  \<^verbatim>\<open>getReadingList\<close> and of \<^verbatim>\<open>getReadingStats\<close> and the generic branch of the other
  two are never taken.
\<close>

datatype prisma_error = P2002 | OtherPrismaError

definition prisma_create :: "('r \<Rightarrow> string) \<Rightarrow> 'r \<Rightarrow> 'r list \<Rightarrow> prisma_error + 'r list" where
  "prisma_create key r rows =
     (if list_ex (\<lambda>x. key x = key r) rows then Inl P2002 else Inr (rows @ [r]))"

definition prisma_findFirst :: "('r \<Rightarrow> string) \<Rightarrow> string \<Rightarrow> 'r list \<Rightarrow> 'r option" where
  "prisma_findFirst key k rows = find (\<lambda>x. key x = k) rows"

definition prisma_deleteMany :: "('r \<Rightarrow> string) \<Rightarrow> string \<Rightarrow> 'r list \<Rightarrow> 'r list" where
  "prisma_deleteMany key k rows = filter (\<lambda>x. key x \<noteq> k) rows"

text \<open>
  Modelled from the spec: \<^verbatim>\<open>findMany({take, orderBy: {addedAt: 'desc'}})\<close> is
  "ordered by most-recently-added first", that is the table reversed; a negative
  \<^verbatim>\<open>take\<close> takes from the other end.
\<close>

definition prisma_take :: "int \<Rightarrow> 'r list \<Rightarrow> 'r list" where
  "prisma_take n rows =
     (if 0 \<le> n then take (nat n) rows else drop (length rows - nat (- n)) rows)"

section \<open>The tools (\<^verbatim>\<open>src/lib/tools.ts\<close>)\<close>

subsection \<open>\<^verbatim>\<open>toolDefinitions\<close>\<close>

text \<open>The six schemas, by name, declared properties and required properties.\<close>

definition toolDefinitions :: "tool_definition list" where
  "toolDefinitions =
     [\<lparr>td_name = ''searchBooks'', td_properties = [''query'', ''maxResults''], td_required = [''query'']\<rparr>,
      \<lparr>td_name = ''getBookDetails'', td_properties = [''bookId''], td_required = [''bookId'']\<rparr>,
      \<lparr>td_name = ''addToReadingList'', td_properties = [''bookId'', ''priority'', ''notes''],
        td_required = [''bookId'']\<rparr>,
      \<lparr>td_name = ''getReadingList'', td_properties = [''limit''], td_required = []\<rparr>,
      \<lparr>td_name = ''markAsRead'', td_properties = [''bookId'', ''rating'', ''review''],
        td_required = [''bookId'']\<rparr>,
      \<lparr>td_name = ''getReadingStats'', td_properties = [''period''], td_required = []\<rparr>]"

subsection \<open>\<^verbatim>\<open>searchBooks\<close>\<close>

text \<open>
  The callback of \<^verbatim>\<open>filter\<close>. \<^verbatim>\<open>item.id.includes(...)\<close> is evaluated for every item,
  whatever \<open>hasBasicInfo\<close> is, so an item without \<^verbatim>\<open>id\<close> makes it throw a TypeError
  (\<open>None\<close>).
\<close>

definition hasBasicInfo :: "volume \<Rightarrow> bool" where
  "hasBasicInfo item =
     ((case v_volumeInfo item of None \<Rightarrow> False | Some vi \<Rightarrow> truthy_string (vi_title vi))
      \<and> truthy_string (v_id item))"

definition isNotProblematicId :: "volume \<Rightarrow> bool option" where
  "isNotProblematicId item =
     (case v_id item of
        None \<Rightarrow> None
      | Some i \<Rightarrow> Some (\<not> str_includes i ''AAAMAAJ'' \<and> \<not> str_includes i ''AAAQBAJ''))"

definition valid_book :: "volume \<Rightarrow> bool option" where
  "valid_book item =
     (case isNotProblematicId item of None \<Rightarrow> None | Some ok \<Rightarrow> Some (hasBasicInfo item \<and> ok))"

text \<open>\<^verbatim>\<open>data.items.filter(...)\<close>: \<open>None\<close> when the callback throws on some item.\<close>

fun filter_valid :: "volume list \<Rightarrow> volume list option" where
  "filter_valid [] = Some []"
| "filter_valid (item # items) =
     (case valid_book item of
        None \<Rightarrow> None
      | Some keep \<Rightarrow>
          (case filter_valid items of
             None \<Rightarrow> None
           | Some rest \<Rightarrow> Some (if keep then item # rest else rest)))"

text \<open>
  The callback of \<^verbatim>\<open>map\<close>. It runs on items that passed the filter, which have a
  \<^verbatim>\<open>volumeInfo\<close>: the first case below is never reached (JavaScript would throw there).
\<close>

definition to_found_book :: "volume \<Rightarrow> found_book" where
  "to_found_book item =
     (case v_volumeInfo item of
        None \<Rightarrow> \<lparr>fb_id = v_id item, fb_title = None, fb_authors = ''Autor desconocido'',
                 fb_thumbnail = None, fb_description = ''Sin descripcion''\<rparr>
      | Some vi \<Rightarrow>
          \<lparr>fb_id = v_id item,
           fb_title = vi_title vi,
           fb_authors = or_string (map_option (join '', '') (vi_authors vi)) ''Autor desconocido'',
           fb_thumbnail = or_null (vi_thumbnail vi),
           fb_description = or_string (map_option (take 200) (vi_description vi)) ''Sin descripcion''\<rparr>)"

definition search_failed :: search_result where
  "search_failed = SearchError ''Error al buscar libros'' []"

text \<open>
  \<open>maxResults\<close> is \<open>None\<close> when the caller passes \<^verbatim>\<open>undefined\<close>; the default is 10.
  The request asks for \<^verbatim>\<open>maxResults * 2\<close> volumes.
\<close>

definition searchBooks :: "env \<Rightarrow> string \<Rightarrow> int option \<Rightarrow> state \<Rightarrow> search_result \<times> state" where
  "searchBooks e query maxResults_arg s =
     (let maxResults = (case maxResults_arg of None \<Rightarrow> 10 | Some m \<Rightarrow> m);
          s' = emit (VolumesSearch query (maxResults * 2)) s
      in case volumes_search e (trace s) query (maxResults * 2) of
           Rejected \<Rightarrow> (search_failed, s')
         | NotOk status \<Rightarrow> (search_failed, s')
         | OkJson data \<Rightarrow>
             (case data of
                None \<Rightarrow> (SearchNone [] ''No se encontraron libros para esa busqueda.'', s')
              | Some [] \<Rightarrow> (SearchNone [] ''No se encontraron libros para esa busqueda.'', s')
              | Some items \<Rightarrow>
                  (case filter_valid items of
                     None \<Rightarrow> (search_failed, s')
                   | Some valid \<Rightarrow>
                       (let validBooks = slice0 maxResults valid;
                            books = map to_found_book validBooks
                        in (SearchFound books (length books), s')))))"

subsection \<open>\<^verbatim>\<open>getBookDetails\<close>\<close>

definition details_of :: "volume \<Rightarrow> volume_info \<Rightarrow> book_details" where
  "details_of data vi =
     \<lparr>bd_id = v_id data,
      bd_title = vi_title vi,
      bd_authors = or_string (map_option (join '', '') (vi_authors vi)) ''Autor desconocido'',
      bd_description = or_string (vi_description vi) ''Sin descripcion'',
      bd_pageCount = or_number (vi_pageCount vi) 0,
      bd_categories = or_string (map_option (join '', '') (vi_categories vi)) ''Sin categoria'',
      bd_thumbnail = or_null (vi_thumbnail vi),
      bd_publishedDate = or_string (vi_publishedDate vi) ''Fecha desconocida'',
      bd_averageRating =
        (case vi_averageRating vi of
           None \<Rightarrow> RatingText ''Sin rating''
         | Some r \<Rightarrow> if r = 0 then RatingText ''Sin rating'' else RatingNumber r)\<rparr>"

definition getBookDetails :: "env \<Rightarrow> string \<Rightarrow> state \<Rightarrow> details_result \<times> state" where
  "getBookDetails e bookId s =
     (let s' = emit (VolumeGet bookId) s
      in case volumes_get e (trace s) bookId of
           Rejected \<Rightarrow> (DetailsError ''Error al obtener detalles del libro'', s')
         | NotOk status \<Rightarrow> (DetailsError ''Error al obtener detalles del libro'', s')
         | OkJson data \<Rightarrow>
             (case v_volumeInfo data of
                None \<Rightarrow> (DetailsError ''Libro no encontrado'', s')
              | Some vi \<Rightarrow> (Details (details_of data vi), s')))"

subsection \<open>\<^verbatim>\<open>addToReadingList\<close>\<close>

text \<open>A template literal prints \<^verbatim>\<open>undefined\<close> for a missing title.\<close>

definition show_title :: "string option \<Rightarrow> string" where
  "show_title t = (case t of None \<Rightarrow> ''undefined'' | Some x \<Rightarrow> x)"

definition addToReadingList ::
  "env \<Rightarrow> string \<Rightarrow> string option \<Rightarrow> string option \<Rightarrow> state \<Rightarrow> add_result \<times> state" where
  "addToReadingList e bookId priority notes s =
     (case getBookDetails e bookId s of
        (DetailsError err, s1) \<Rightarrow>
          (AddUnavailable
             ''No se pudo agregar el libro. El libro no esta disponible en este momento.''
             ''Por favor, intenta buscar el libro de nuevo y selecciona otro resultado.'', s1)
      | (Details bookInfo, s1) \<Rightarrow>
          (let item = \<lparr>li_googleId = bookId,
                       li_title = bd_title bookInfo,
                       li_authors = Some (bd_authors bookInfo),
                       li_thumbnail = bd_thumbnail bookInfo,
                       li_priority = or_string priority ''medium'',
                       li_notes = or_null notes\<rparr>
           in case prisma_create li_googleId item (readingListItem s1) of
                Inr rows \<Rightarrow>
                  (AddOk (dq @ show_title (bd_title bookInfo) @ dq @ '' agregado a tu lista de lectura'') item,
                   s1\<lparr>readingListItem := rows\<rparr>)
              | Inl P2002 \<Rightarrow> (AddFail ''Este libro ya esta en tu lista de lectura'', s1)
              | Inl OtherPrismaError \<Rightarrow>
                  (AddFail ''Error al agregar libro a la lista. Por favor, intenta de nuevo.'', s1)))"

subsection \<open>\<^verbatim>\<open>getReadingList\<close>\<close>

definition getReadingList :: "int option \<Rightarrow> state \<Rightarrow> list_result \<times> state" where
  "getReadingList limit_arg s =
     (let limit = (case limit_arg of None \<Rightarrow> 20 | Some n \<Rightarrow> n);
          items = prisma_take limit (rev (readingListItem s))
      in (ListOk items (length items), s))"

subsection \<open>\<^verbatim>\<open>markAsRead\<close>\<close>

record book_info =
  bi_title :: "string option"
  bi_authors :: string
  bi_thumbnail :: "string option"
  bi_pageCount :: int

text \<open>The part of \<^verbatim>\<open>markAsRead\<close> after \<^verbatim>\<open>bookInfo\<close> is set: create the read row, then delete the pending rows.\<close>

definition markAsRead_store ::
  "string \<Rightarrow> int option \<Rightarrow> string option \<Rightarrow> book_info \<Rightarrow> state \<Rightarrow> mark_result \<times> state" where
  "markAsRead_store bookId rating review bookInfo s =
     (let readBook_row = \<lparr>rb_googleId = bookId,
                          rb_title = bi_title bookInfo,
                          rb_authors = Some (bi_authors bookInfo),
                          rb_thumbnail = bi_thumbnail bookInfo,
                          rb_pageCount = Some (bi_pageCount bookInfo),
                          rb_rating = num_or_null rating,
                          rb_review = or_null review\<rparr>
      in case prisma_create rb_googleId readBook_row (readBook s) of
           Inr rows \<Rightarrow>
             (MarkOk (dq @ show_title (bi_title bookInfo) @ dq @ '' marcado como leido'') readBook_row,
              s\<lparr>readBook := rows,
                readingListItem := prisma_deleteMany li_googleId bookId (readingListItem s)\<rparr>)
         | Inl P2002 \<Rightarrow> (MarkFail ''Este libro ya fue marcado como leido anteriormente'', s)
         | Inl OtherPrismaError \<Rightarrow> (MarkFail ''Error al marcar libro como leido'', s))"

definition markAsRead ::
  "env \<Rightarrow> string \<Rightarrow> int option \<Rightarrow> string option \<Rightarrow> state \<Rightarrow> mark_result \<times> state" where
  "markAsRead e bookId rating review s =
     (case prisma_findFirst li_googleId bookId (readingListItem s) of
        Some bookInList \<Rightarrow>
          markAsRead_store bookId rating review
            \<lparr>bi_title = li_title bookInList,
             bi_authors = or_string (li_authors bookInList) ''Autor desconocido'',
             bi_thumbnail = li_thumbnail bookInList,
             bi_pageCount = 0\<rparr> s
      | None \<Rightarrow>
          (case getBookDetails e bookId s of
             (DetailsError err, s1) \<Rightarrow>
               (MarkFail ''No se pudo marcar el libro como leido. El libro no esta disponible.'', s1)
           | (Details details, s1) \<Rightarrow>
               markAsRead_store bookId rating review
                 \<lparr>bi_title = bd_title details,
                  bi_authors = bd_authors details,
                  bi_thumbnail = bd_thumbnail details,
                  bi_pageCount = or_number (Some (bd_pageCount details)) 0\<rparr> s1))"

subsection \<open>\<^verbatim>\<open>getReadingStats\<close>\<close>

text \<open>
  \<^verbatim>\<open>authorCounts\<close> starts as \<^verbatim>\<open>{}\<close>, a plain object: reading a key it does not own
  finds the members it inherits from \<^verbatim>\<open>Object.prototype\<close>. Eleven of them are functions
  and \<^verbatim>\<open>__proto__\<close> is the prototype itself; all are truthy, and \<^verbatim>\<open>+ 1\<close> turns them into
  text first. \<open>inherited k\<close> is that text (as V8 prints a built-in function), \<open>None\<close>
  for a key that \<^verbatim>\<open>Object.prototype\<close> does not have.
\<close>

definition native_function :: "string \<Rightarrow> string" where
  "native_function name = ''function '' @ name @ ''() { [native code] }''"

definition inherited :: "string \<Rightarrow> string option" where
  "inherited k =
     (if k = ''constructor'' then Some (native_function ''Object'')
      else if k = ''__proto__'' then Some ''[object Object]''
      else if k \<in> set [''__defineGetter__'', ''__defineSetter__'', ''hasOwnProperty'',
                        ''__lookupGetter__'', ''__lookupSetter__'', ''isPrototypeOf'',
                        ''propertyIsEnumerable'', ''toString'', ''valueOf'', ''toLocaleString'']
      then Some (native_function k)
      else None)"

text \<open>
  \<^verbatim>\<open>(authorCounts[author] || 0) + 1\<close>, from the own value of the key, if any, and the
  inherited member, if any: a number is incremented, and text gets \<^verbatim>\<open>1\<close> appended.
\<close>

fun plus_one :: "count_value option \<Rightarrow> string option \<Rightarrow> count_value" where
  "plus_one (Some (CountNumber n)) member = CountNumber (n + 1)"
| "plus_one (Some (CountText t)) member = CountText (t @ ''1'')"
| "plus_one None (Some t) = CountText (t @ ''1'')"
| "plus_one None None = CountNumber 1"

text \<open>
  The own properties of \<^verbatim>\<open>authorCounts\<close> as the list of its entries in the order the
  keys were created. Assigning to an own key replaces its value in place, assigning
  to a new key appends an entry.
\<close>

fun assign :: "(string \<times> count_value) list \<Rightarrow> string \<Rightarrow> count_value \<Rightarrow> (string \<times> count_value) list" where
  "assign [] a v = [(a, v)]"
| "assign ((k, w) # kvs) a v = (if k = a then (k, v) # kvs else (k, w) # assign kvs a v)"

text \<open>
  \<^verbatim>\<open>authorCounts[author] = (authorCounts[author] || 0) + 1\<close>. Assigning to \<^verbatim>\<open>__proto__\<close>
  calls the setter of \<^verbatim>\<open>Object.prototype\<close>, which ignores a value that is neither an
  object nor \<^verbatim>\<open>null\<close>: no entry is created.
\<close>

definition count_author :: "(string \<times> count_value) list \<Rightarrow> string \<Rightarrow> (string \<times> count_value) list" where
  "count_author counts a =
     (if a = ''__proto__'' then counts
      else assign counts a (plus_one (map_of counts a) (inherited a)))"

text \<open>
  \<^verbatim>\<open>Object.entries\<close>: the keys that are array indices (canonical decimal numerals
  below \<open>2^32 - 1\<close>) come first, in ascending numeric order, then the other keys in
  the order they were created.
\<close>

definition int_of_digits :: "string \<Rightarrow> int" where
  "int_of_digits k = foldl (\<lambda>acc c. 10 * acc + (int (of_char c) - 48)) 0 k"

definition is_array_index :: "string \<Rightarrow> bool" where
  "is_array_index k =
     (k \<noteq> [] \<and> list_all (\<lambda>c. 48 \<le> (of_char c :: nat) \<and> (of_char c :: nat) \<le> 57) k
      \<and> (k = ''0'' \<or> hd k \<noteq> CHR ''0'')
      \<and> length k \<le> 10 \<and> int_of_digits k < 4294967295)"

definition Object_entries :: "(string \<times> count_value) list \<Rightarrow> (string \<times> count_value) list" where
  "Object_entries kvs =
     sort_key (\<lambda>kv. int_of_digits (fst kv)) (filter (\<lambda>kv. is_array_index (fst kv)) kvs)
     @ filter (\<lambda>kv. \<not> is_array_index (fst kv)) kvs"

text \<open>
  The comparator \<^verbatim>\<open>([,a], [,b]) => b - a\<close>. The text of a count never reads as a number,
  so the difference is \<^verbatim>\<open>NaN\<close> (\<open>None\<close>) as soon as one side is text.
\<close>

fun by_count :: "string \<times> count_value \<Rightarrow> string \<times> count_value \<Rightarrow> int option" where
  "by_count (k, CountNumber a) (l, CountNumber b) = Some (int b - int a)"
| "by_count (k, CountText a) y = None"
| "by_count (k, CountNumber a) (l, CountText b) = None"

text \<open>
  \<^verbatim>\<open>Array.prototype.sort\<close> with a comparator reads \<^verbatim>\<open>NaN\<close> as \<open>0\<close> (neither before nor
  after) and is stable: \<open>x\<close> stays before \<open>y\<close> unless the comparator is positive. The
  sort is written as an insertion sort. Where the comparator is consistent, every
  stable sort gives this order; where it is not (a text count between two different
  numbers), ECMAScript leaves the order to the engine, and this one is among those
  allowed.
\<close>

definition stays_before :: "('a \<Rightarrow> 'a \<Rightarrow> int option) \<Rightarrow> 'a \<Rightarrow> 'a \<Rightarrow> bool" where
  "stays_before comparefn x y = (case comparefn x y of None \<Rightarrow> True | Some v \<Rightarrow> v \<le> 0)"

fun insert_sorted :: "('a \<Rightarrow> 'a \<Rightarrow> int option) \<Rightarrow> 'a \<Rightarrow> 'a list \<Rightarrow> 'a list" where
  "insert_sorted comparefn x [] = [x]"
| "insert_sorted comparefn x (y # ys) =
     (if stays_before comparefn x y then x # y # ys else y # insert_sorted comparefn x ys)"

definition Array_sort :: "('a \<Rightarrow> 'a \<Rightarrow> int option) \<Rightarrow> 'a list \<Rightarrow> 'a list" where
  "Array_sort comparefn xs = foldr (insert_sorted comparefn) xs []"

definition getReadingStats :: "env \<Rightarrow> string option \<Rightarrow> state \<Rightarrow> stats_result \<times> state" where
  "getReadingStats e period_arg s =
     (let period = (case period_arg of None \<Rightarrow> ''all-time'' | Some p \<Rightarrow> p);
          books = readBook s;
          totalBooks = length books;
          totalPages = foldl (\<lambda>sum book. sum + or_number (rb_pageCount book) 0) 0 books;
          booksWithRating = filter (\<lambda>b. truthy_num (rb_rating b)) books;
          avgRating =
            (if length booksWithRating > 0
             then number_divide e
                    (foldl (\<lambda>sum b. sum + or_number (rb_rating b) 0) 0 booksWithRating)
                    (int (length booksWithRating))
             else 0);
          authors = filter truthy_string (map rb_authors books);
          authorCounts = foldl (\<lambda>counts author. count_author counts (or_string author [])) [] authors
      in (StatsOk
            \<lparr>totalBooksRead = totalBooks,
             totalPages = totalPages,
             averageRating = toFixed1 avgRating,
             topAuthors = take 3 (Array_sort by_count (Object_entries authorCounts))\<rparr>,
          s))"

section \<open>The chat route (\<^verbatim>\<open>src/app/api/chat/route.ts\<close>)\<close>

text \<open>What JavaScript throws: a value of this type is a thrown exception.\<close>

datatype js_error = SyntaxError | TypeError | Error string

text \<open>A message of the request body, as \<^verbatim>\<open>page.tsx\<close> sends it.\<close>

record client_message =
  cm_role :: string
  cm_content :: "string option"

text \<open>
  \<^verbatim>\<open>String.prototype.trim\<close>, on the ASCII white space (tab, line feed, vertical tab,
  form feed, carriage return, space).
\<close>

definition is_space :: "char \<Rightarrow> bool" where
  "is_space c = ((of_char c :: nat) \<in> {9, 10, 11, 12, 13, 32})"

definition trim :: "string \<Rightarrow> string" where
  "trim x = rev (dropWhile is_space (rev (dropWhile is_space x)))"

definition clean_message :: "client_message \<Rightarrow> chat_message" where
  "clean_message msg = Message (cm_role msg) (trim (or_string (cm_content msg) []))"

text \<open>
  The system prompt is a fixed text of some fifty lines (lines 28 to 83 of the source);
  only its first sentence is written out, nothing depends on the rest.
\<close>

definition systemMessage :: chat_message where
  "systemMessage =
     Message ''system''
       ''Eres un asistente de recomendacion de libros amigable y entusiasta llamado Book Advisor.''"

text \<open>\<^verbatim>\<open>JSON.parse(toolCall.function.arguments)\<close>; \<open>Inr None\<close> is \<^verbatim>\<open>null\<close>.\<close>

definition JSON_parse :: "arguments_text \<Rightarrow> js_error + tool_args option" where
  "JSON_parse t =
     (case t of
        Malformed \<Rightarrow> Inl SyntaxError
      | JsonNull \<Rightarrow> Inr None
      | JsonObject a \<Rightarrow> Inr (Some a))"

text \<open>
  The \<^verbatim>\<open>switch\<close> of lines 130 to 151. Reading a property of \<^verbatim>\<open>null\<close> throws a
  TypeError, before the tool is called; the \<^verbatim>\<open>default\<close> branch reads no property.
\<close>

definition switch_tool ::
  "env \<Rightarrow> string \<Rightarrow> tool_args option \<Rightarrow> state \<Rightarrow> js_error + (tool_result \<times> state)" where
  "switch_tool e functionName args s =
     (if functionName = ''searchBooks'' then
        (case args of
           None \<Rightarrow> Inl TypeError
         | Some a \<Rightarrow> Inr (map_prod RSearch id (searchBooks e (a_query a) (a_maxResults a) s)))
      else if functionName = ''getBookDetails'' then
        (case args of
           None \<Rightarrow> Inl TypeError
         | Some a \<Rightarrow> Inr (map_prod RDetails id (getBookDetails e (a_bookId a) s)))
      else if functionName = ''addToReadingList'' then
        (case args of
           None \<Rightarrow> Inl TypeError
         | Some a \<Rightarrow>
             Inr (map_prod RAdd id (addToReadingList e (a_bookId a) (a_priority a) (a_notes a) s)))
      else if functionName = ''getReadingList'' then
        (case args of
           None \<Rightarrow> Inl TypeError
         | Some a \<Rightarrow> Inr (map_prod RList id (getReadingList (a_limit a) s)))
      else if functionName = ''markAsRead'' then
        (case args of
           None \<Rightarrow> Inl TypeError
         | Some a \<Rightarrow>
             Inr (map_prod RMark id (markAsRead e (a_bookId a) (a_rating a) (a_review a) s)))
      else if functionName = ''getReadingStats'' then
        (case args of
           None \<Rightarrow> Inl TypeError
         | Some a \<Rightarrow> Inr (map_prod RStats id (getReadingStats e (a_period a) s)))
      else Inr (RError ''Herramienta no encontrada'', s))"

text \<open>The \<^verbatim>\<open>try\<close> around the switch and its \<^verbatim>\<open>catch\<close> (lines 129 to 157).\<close>

definition run_tool :: "env \<Rightarrow> string \<Rightarrow> tool_args option \<Rightarrow> state \<Rightarrow> tool_result \<times> state" where
  "run_tool e functionName args s =
     (case switch_tool e functionName args s of
        Inr (result, s') \<Rightarrow> (result, s')
      | Inl err \<Rightarrow> (RError (''Error al ejecutar '' @ functionName), s))"

text \<open>
  The \<^verbatim>\<open>for\<close> loop of lines 122 to 164, with \<^verbatim>\<open>toolResults\<close> as accumulator.
  \<^verbatim>\<open>JSON.parse\<close> stands before the \<^verbatim>\<open>try\<close>: what it throws leaves the loop (\<open>Inl\<close>,
  with the state reached so far).
\<close>

fun run_tool_calls ::
  "env \<Rightarrow> tool_call list \<Rightarrow> chat_message list \<Rightarrow> state
     \<Rightarrow> (js_error \<times> state) + (chat_message list \<times> state)" where
  "run_tool_calls e [] toolResults s = Inr (toolResults, s)"
| "run_tool_calls e (toolCall # rest) toolResults s =
     (case JSON_parse (tc_arguments toolCall) of
        Inl err \<Rightarrow> Inl (err, s)
      | Inr args \<Rightarrow>
          (case run_tool e (tc_name toolCall) args (emit (Executing (tc_name toolCall)) s) of
             (result, s') \<Rightarrow>
               run_tool_calls e rest (toolResults @ [ToolMessage (tc_id toolCall) result]) s'))"

text \<open>
  One call of the LLM provider: \<^verbatim>\<open>fetch\<close>, the test of \<^verbatim>\<open>response.ok\<close>,
  \<^verbatim>\<open>response.json()\<close> and \<^verbatim>\<open>data.choices[0].message\<close>.
\<close>

definition llm_call :: "env \<Rightarrow> llm_request \<Rightarrow> state \<Rightarrow> (js_error + assistant_message) \<times> state" where
  "llm_call e req s =
     (let s' = emit (ChatCompletion req) s
      in case chat_completions e (trace s) req of
           Rejected \<Rightarrow> (Inl (Error ''fetch failed''), s')
         | NotOk status \<Rightarrow> (Inl (Error (''OpenRouter API error: '' @ show_nat status)), s')
         | OkJson choices \<Rightarrow>
             (case choices of
                [] \<Rightarrow> (Inl TypeError, s')
              | message # others \<Rightarrow> (Inr message, s')))"

text \<open>
  The response of the route: \<^verbatim>\<open>{content, toolsUsed}\<close>, or the status 500 of the outer
  \<^verbatim>\<open>catch\<close> (its body, the text of the error, is left out).
\<close>

datatype response = Ok200 "string option" "string list" | Error500

text \<open>
  The bodies of the two chat-completion requests: only the first has \<^verbatim>\<open>tools\<close>.
\<close>

definition first_request :: "client_message list \<Rightarrow> llm_request" where
  "first_request messages =
     \<lparr>lr_messages = systemMessage # map clean_message messages, lr_tools = Some toolDefinitions\<rparr>"

definition second_request ::
  "client_message list \<Rightarrow> assistant_message \<Rightarrow> chat_message list \<Rightarrow> llm_request" where
  "second_request messages assistantMessage toolResults =
     \<lparr>lr_messages =
        (systemMessage # map clean_message messages) @ [AssistantMessage assistantMessage] @ toolResults,
      lr_tools = None\<rparr>"

text \<open>
  \<open>body_messages\<close> is \<^verbatim>\<open>body.messages\<close>; \<open>None\<close> when the body is not JSON or has
  no such array (\<^verbatim>\<open>req.json()\<close> or \<^verbatim>\<open>body.messages.map\<close> throws). Whatever is thrown
  inside the outer \<^verbatim>\<open>try\<close> ends the request with status 500.
\<close>

definition POST :: "env \<Rightarrow> client_message list option \<Rightarrow> state \<Rightarrow> response \<times> state" where
  "POST e body_messages s =
     (case body_messages of
        None \<Rightarrow> (Error500, s)
      | Some messages \<Rightarrow>
          (case llm_call e (first_request messages) s of
             (Inl err, s1) \<Rightarrow> (Error500, s1)
           | (Inr assistantMessage, s1) \<Rightarrow>
               (case am_tool_calls assistantMessage of
                  None \<Rightarrow> (Ok200 (am_content assistantMessage) [], s1)
                | Some [] \<Rightarrow> (Ok200 (am_content assistantMessage) [], s1)
                | Some tool_calls \<Rightarrow>
                    (case run_tool_calls e tool_calls [] s1 of
                       Inl (err, s2) \<Rightarrow> (Error500, s2)
                     | Inr (toolResults, s2) \<Rightarrow>
                         (case llm_call e (second_request messages assistantMessage toolResults) s2 of
                            (Inl err, s3) \<Rightarrow> (Error500, s3)
                          | (Inr finalMessage, s3) \<Rightarrow>
                              (Ok200 (am_content finalMessage) (map tc_name tool_calls), s3))))))"

subsection \<open>Reading a trace\<close>

text \<open>
  The chat-completion requests among the events, the names of the tool calls that were
  announced, and the tool calls of the first answer of the LLM, if it had any.
\<close>

fun is_completion :: "event \<Rightarrow> bool" where
  "is_completion (ChatCompletion req) = True"
| "is_completion ev = False"

fun executed :: "event list \<Rightarrow> string list" where
  "executed [] = []"
| "executed (Executing name # evs) = name # executed evs"
| "executed (ev # evs) = executed evs"

definition requested_calls :: "env \<Rightarrow> client_message list \<Rightarrow> state \<Rightarrow> tool_call list" where
  "requested_calls e messages s =
     (case chat_completions e (trace s) (first_request messages) of
        OkJson (assistantMessage # others) \<Rightarrow>
          (case am_tool_calls assistantMessage of None \<Rightarrow> [] | Some tool_calls \<Rightarrow> tool_calls)
      | _ \<Rightarrow> [])"


section \<open>A sample world\<close>

text \<open>
  Two volumes that Google Books knows, a scanned copy whose identifier has one of the
  two patterns that \<^verbatim>\<open>searchBooks\<close> rejects, and a volume without a title.
\<close>

definition fundacion_info :: volume_info where
  "fundacion_info =
     \<lparr>vi_title = Some ''Fundacion'', vi_authors = Some [''Isaac Asimov''],
      vi_description = Some ''La caida del Imperio Galactico.'', vi_pageCount = Some 255,
      vi_categories = Some [''Fiction''], vi_thumbnail = None,
      vi_publishedDate = Some ''1951'', vi_averageRating = Some 4\<rparr>"

definition fundacion :: volume where
  "fundacion = \<lparr>v_id = Some ''ABC123'', v_volumeInfo = Some fundacion_info\<rparr>"

definition yo_robot :: volume where
  "yo_robot =
     \<lparr>v_id = Some ''XYZ789'',
      v_volumeInfo = Some
        \<lparr>vi_title = Some ''Yo, Robot'', vi_authors = Some [''Isaac Asimov''],
         vi_description = None, vi_pageCount = Some 224,
         vi_categories = None, vi_thumbnail = Some ''http://books.example/xyz789.jpg'',
         vi_publishedDate = Some ''1950'', vi_averageRating = None\<rparr>\<rparr>"

definition scanned_copy :: volume where
  "scanned_copy =
     \<lparr>v_id = Some ''k9AAAMAAJ'',
      v_volumeInfo = Some
        \<lparr>vi_title = Some ''Fundacion'', vi_authors = None,
         vi_description = None, vi_pageCount = None,
         vi_categories = None, vi_thumbnail = None,
         vi_publishedDate = None, vi_averageRating = None\<rparr>\<rparr>"

definition untitled :: volume where
  "untitled =
     \<lparr>v_id = Some ''NOTITLE1'',
      v_volumeInfo = Some
        \<lparr>vi_title = None, vi_authors = Some [''Anonimo''],
         vi_description = None, vi_pageCount = None,
         vi_categories = None, vi_thumbnail = None,
         vi_publishedDate = None, vi_averageRating = None\<rparr>\<rparr>"

text \<open>
  An LLM that asks for the given tool calls when it is offered tools, and answers in
  prose when it is not.
\<close>

definition sample_llm :: "tool_call list \<Rightarrow> event list \<Rightarrow> llm_request \<Rightarrow> assistant_message list fetched" where
  "sample_llm calls tr req =
     (case lr_tools req of
        Some tools \<Rightarrow> OkJson [\<lparr>am_content = None, am_tool_calls = Some calls\<rparr>]
      | None \<Rightarrow> OkJson [\<lparr>am_content = Some ''Listo.'', am_tool_calls = None\<rparr>])"

definition sample_env :: "tool_call list \<Rightarrow> env" where
  "sample_env calls =
     \<lparr>volumes_search = (\<lambda>tr q n. OkJson (Some [fundacion, scanned_copy, yo_robot, untitled])),
      volumes_get =
        (\<lambda>tr i. if i = ''ABC123'' then OkJson fundacion
                else if i = ''XYZ789'' then OkJson yo_robot
                else NotOk 404),
      chat_completions = sample_llm calls,
      number_divide = (\<lambda>a b. of_int a / of_int b)\<rparr>"

definition empty_store :: state where
  "empty_store = \<lparr>readingListItem = [], readBook = [], trace = []\<rparr>"

text \<open>The rows that the tools make of the two volumes.\<close>

definition fundacion_item :: reading_list_item where
  "fundacion_item =
     \<lparr>li_googleId = ''ABC123'', li_title = Some ''Fundacion'', li_authors = Some ''Isaac Asimov'',
      li_thumbnail = None, li_priority = ''medium'', li_notes = None\<rparr>"

definition fundacion_read :: read_book where
  "fundacion_read =
     \<lparr>rb_googleId = ''ABC123'', rb_title = Some ''Fundacion'', rb_authors = Some ''Isaac Asimov'',
      rb_thumbnail = None, rb_pageCount = Some 255, rb_rating = Some 5, rb_review = None\<rparr>"

definition yo_robot_read :: read_book where
  "yo_robot_read =
     \<lparr>rb_googleId = ''XYZ789'', rb_title = Some ''Yo, Robot'', rb_authors = Some ''Isaac Asimov'',
      rb_thumbnail = Some ''http://books.example/xyz789.jpg'', rb_pageCount = Some 224,
      rb_rating = Some 4, rb_review = None\<rparr>"

text \<open>
  Two stores that the tools reach from the empty one: \<open>ABC123\<close> pending (after
  \<open>XYZ789\<close> was marked read), and \<open>ABC123\<close> read first and put on the list afterwards.
\<close>

definition pending_store :: state where
  "pending_store =
     \<lparr>readingListItem = [fundacion_item], readBook = [yo_robot_read],
      trace = [VolumeGet ''XYZ789'', VolumeGet ''ABC123'']\<rparr>"

definition read_and_pending_store :: state where
  "read_and_pending_store =
     \<lparr>readingListItem = [fundacion_item], readBook = [fundacion_read],
      trace = [VolumeGet ''ABC123'', VolumeGet ''ABC123'']\<rparr>"

text \<open>The row that \<^verbatim>\<open>markAsRead\<close> makes of the pending \<open>ABC123\<close>.\<close>

definition fundacion_from_list :: read_book where
  "fundacion_from_list =
     \<lparr>rb_googleId = ''ABC123'', rb_title = Some ''Fundacion'', rb_authors = Some ''Isaac Asimov'',
      rb_thumbnail = None, rb_pageCount = Some 0, rb_rating = Some 5, rb_review = None\<rparr>"

text \<open>A shelf of four read books, three of them rated.\<close>

definition shelf_store :: state where
  "shelf_store =
     \<lparr>readingListItem = [],
      readBook =
        [fundacion_read, yo_robot_read,
         \<lparr>rb_googleId = ''QRS456'', rb_title = Some ''El fin de la eternidad'',
          rb_authors = Some ''Isaac Asimov'', rb_thumbnail = None, rb_pageCount = Some 0,
          rb_rating = None, rb_review = None\<rparr>,
         \<lparr>rb_googleId = ''LMN000'', rb_title = Some ''Solaris'',
          rb_authors = Some ''Stanislaw Lem'', rb_thumbnail = None, rb_pageCount = Some 204,
          rb_rating = Some 4, rb_review = Some ''Inquietante.''\<rparr>],
      trace = []\<rparr>"

text \<open>
  A request of the client, and tool calls of the LLM: one that is in order, one whose
  arguments are not JSON, one for a tool that does not exist, and one whose arguments
  are the JSON text \<^verbatim>\<open>null\<close>.
\<close>

definition user_asks :: "client_message list" where
  "user_asks = [\<lparr>cm_role = ''user'', cm_content = Some '' Agrega Fundacion a mi lista ''\<rparr>]"

definition no_args :: tool_args where
  "no_args =
     \<lparr>a_query = [], a_maxResults = None, a_bookId = [], a_priority = None, a_notes = None,
      a_limit = None, a_rating = None, a_review = None, a_period = None\<rparr>"

definition add_call :: tool_call where
  "add_call =
     \<lparr>tc_id = ''call_1'', tc_name = ''addToReadingList'',
      tc_arguments = JsonObject (no_args\<lparr>a_bookId := ''ABC123''\<rparr>)\<rparr>"

definition broken_call :: tool_call where
  "broken_call = \<lparr>tc_id = ''call_2'', tc_name = ''searchBooks'', tc_arguments = Malformed\<rparr>"

definition unknown_call :: tool_call where
  "unknown_call = \<lparr>tc_id = ''call_3'', tc_name = ''deleteBook'', tc_arguments = JsonNull\<rparr>"

definition null_call :: tool_call where
  "null_call = \<lparr>tc_id = ''call_4'', tc_name = ''getReadingStats'', tc_arguments = JsonNull\<rparr>"

text \<open>
  A tool call for a tool that does not exist, with arguments that are not JSON; a
  volume without an identifier; and a shelf of five unrated read books, two of them by
  an author whose name is that of a member of \<^verbatim>\<open>Object.prototype\<close>.
\<close>

definition unknown_broken_call :: tool_call where
  "unknown_broken_call = \<lparr>tc_id = ''call_5'', tc_name = ''deleteBook'', tc_arguments = Malformed\<rparr>"

definition without_id :: volume where
  "without_id = \<lparr>v_id = None, v_volumeInfo = Some fundacion_info\<rparr>"

definition unrated :: "string \<Rightarrow> string \<Rightarrow> string \<Rightarrow> read_book" where
  "unrated googleId title authors =
     \<lparr>rb_googleId = googleId, rb_title = Some title, rb_authors = Some authors,
      rb_thumbnail = None, rb_pageCount = Some 100, rb_rating = None, rb_review = None\<rparr>"

definition toString_shelf :: state where
  "toString_shelf =
     \<lparr>readingListItem = [],
      readBook =
        [unrated ''TS00001'' ''Uno'' ''toString'', unrated ''TS00002'' ''Dos'' ''toString'',
         unrated ''LEM0001'' ''Solaris'' ''Stanislaw Lem'', unrated ''LEM0002'' ''Eden'' ''Stanislaw Lem'',
         unrated ''LEM0003'' ''Fiasco'' ''Stanislaw Lem''],
      trace = []\<rparr>"

section \<open>Properties\<close>

subsection \<open>Storage and the tools, step by step\<close>

lemma emit_simps [simp]:
  "readingListItem (emit ev s) = readingListItem s"
  "readBook (emit ev s) = readBook s"
  "trace (emit ev s) = trace s @ [ev]"
  by (simp_all add: emit_def)

lemma getBookDetails_state:
  "snd (getBookDetails e bookId s) = emit (VolumeGet bookId) s"
  by (simp add: getBookDetails_def Let_def split: fetched.splits option.splits)

lemma prisma_create_fresh:
  "key r \<notin> key ` set rows \<Longrightarrow> prisma_create key r rows = Inr (rows @ [r])"
  by (auto simp: prisma_create_def list_ex_iff image_iff)

lemma prisma_create_duplicate:
  "key r \<in> key ` set rows \<Longrightarrow> prisma_create key r rows = Inl P2002"
  by (auto simp: prisma_create_def list_ex_iff)

lemma prisma_findFirst_None:
  "(prisma_findFirst key k rows = None) = (k \<notin> key ` set rows)"
  by (auto simp: prisma_findFirst_def find_None_iff)

lemma addToReadingList_unresolved:
  assumes "fst (getBookDetails e bookId s) = DetailsError err"
  shows "addToReadingList e bookId priority notes s =
           (AddUnavailable
              ''No se pudo agregar el libro. El libro no esta disponible en este momento.''
              ''Por favor, intenta buscar el libro de nuevo y selecciona otro resultado.'',
            emit (VolumeGet bookId) s)"
proof -
  have "getBookDetails e bookId s = (DetailsError err, emit (VolumeGet bookId) s)"
    using assms getBookDetails_state [of e bookId s] by (metis prod.collapse)
  then show ?thesis by (simp add: addToReadingList_def)
qed

lemma markAsRead_unresolved:
  assumes "fst (getBookDetails e bookId s) = DetailsError err"
      and "bookId \<notin> li_googleId ` set (readingListItem s)"
  shows "markAsRead e bookId rating review s =
           (MarkFail ''No se pudo marcar el libro como leido. El libro no esta disponible.'',
            emit (VolumeGet bookId) s)"
proof -
  have "getBookDetails e bookId s = (DetailsError err, emit (VolumeGet bookId) s)"
    using assms(1) getBookDetails_state [of e bookId s] by (metis prod.collapse)
  moreover have "prisma_findFirst li_googleId bookId (readingListItem s) = None"
    using assms(2) by (simp add: prisma_findFirst_None)
  ultimately show ?thesis by (simp add: markAsRead_def)
qed

lemma addToReadingList_resolved:
  assumes "fst (getBookDetails e bookId s) = Details d"
  shows "addToReadingList e bookId priority notes s =
           (let item = \<lparr>li_googleId = bookId, li_title = bd_title d, li_authors = Some (bd_authors d),
                         li_thumbnail = bd_thumbnail d, li_priority = or_string priority ''medium'',
                         li_notes = or_null notes\<rparr>
            in if bookId \<in> li_googleId ` set (readingListItem s)
               then (AddFail ''Este libro ya esta en tu lista de lectura'', emit (VolumeGet bookId) s)
               else (AddOk (dq @ show_title (bd_title d) @ dq @ '' agregado a tu lista de lectura'') item,
                     (emit (VolumeGet bookId) s)\<lparr>readingListItem := readingListItem s @ [item]\<rparr>))"
proof -
  let ?item = "\<lparr>li_googleId = bookId, li_title = bd_title d, li_authors = Some (bd_authors d),
                 li_thumbnail = bd_thumbnail d, li_priority = or_string priority ''medium'',
                 li_notes = or_null notes\<rparr>"
  have run: "getBookDetails e bookId s = (Details d, emit (VolumeGet bookId) s)"
    using assms getBookDetails_state [of e bookId s] by (metis prod.collapse)
  show ?thesis
  proof (cases "bookId \<in> li_googleId ` set (readingListItem s)")
    case True
    then have "li_googleId ?item \<in> li_googleId ` set (readingListItem s)" by simp
    then have "prisma_create li_googleId ?item (readingListItem s) = Inl P2002"
      by (rule prisma_create_duplicate)
    then show ?thesis using True by (simp add: addToReadingList_def run Let_def)
  next
    case False
    then have "li_googleId ?item \<notin> li_googleId ` set (readingListItem s)" by simp
    then have "prisma_create li_googleId ?item (readingListItem s) = Inr (readingListItem s @ [?item])"
      by (rule prisma_create_fresh)
    then show ?thesis using False by (simp add: addToReadingList_def run Let_def)
  qed
qed

lemma once_if_distinct:
  "distinct (map key rows) \<Longrightarrow> k \<in> key ` set rows \<Longrightarrow> length (filter (\<lambda>x. key x = k) rows) = 1"
  by (induction rows) (auto simp: filter_empty_conv image_iff)

lemma foldl_plus_sum_list:
  "foldl (\<lambda>sum b. sum + f b) a xs = (a :: int) + sum_list (map f xs)"
  by (induction xs arbitrary: a) simp_all

lemma getReadingStats_totals:
  "map_option totalBooksRead (stats_of (fst (getReadingStats e period s))) = Some (length (readBook s))"
  "map_option totalPages (stats_of (fst (getReadingStats e period s)))
     = Some (sum_list (map (\<lambda>b. or_number (rb_pageCount b) 0) (readBook s)))"
  "snd (getReadingStats e period s) = s"
  by (simp_all add: getReadingStats_def Let_def foldl_plus_sum_list)

lemma getReadingList_subset:
  "set (lr_books (fst (getReadingList limit s))) \<subseteq> set (readingListItem s)"
proof -
  have "set (prisma_take n rows) \<subseteq> set rows" for n and rows :: "reading_list_item list"
    by (auto simp: prisma_take_def dest: in_set_takeD in_set_dropD)
  from this [of _ "rev (readingListItem s)"] show ?thesis
    by (simp add: getReadingList_def Let_def)
qed

lemma markAsRead_pending:
  assumes "prisma_findFirst li_googleId bookId (readingListItem s) = Some p"
  shows "markAsRead e bookId rating review s =
           markAsRead_store bookId rating review
             \<lparr>bi_title = li_title p,
              bi_authors = or_string (li_authors p) ''Autor desconocido'',
              bi_thumbnail = li_thumbnail p,
              bi_pageCount = 0\<rparr> s"
  using assms by (simp add: markAsRead_def)

lemma markAsRead_store_fresh:
  assumes "bookId \<notin> rb_googleId ` set (readBook s)"
  shows "markAsRead_store bookId rating review bookInfo s =
           (MarkOk (dq @ show_title (bi_title bookInfo) @ dq @ '' marcado como leido'')
              \<lparr>rb_googleId = bookId, rb_title = bi_title bookInfo,
               rb_authors = Some (bi_authors bookInfo), rb_thumbnail = bi_thumbnail bookInfo,
               rb_pageCount = Some (bi_pageCount bookInfo), rb_rating = num_or_null rating,
               rb_review = or_null review\<rparr>,
            s\<lparr>readBook := readBook s @
                 [\<lparr>rb_googleId = bookId, rb_title = bi_title bookInfo,
                   rb_authors = Some (bi_authors bookInfo), rb_thumbnail = bi_thumbnail bookInfo,
                   rb_pageCount = Some (bi_pageCount bookInfo), rb_rating = num_or_null rating,
                   rb_review = or_null review\<rparr>],
              readingListItem := filter (\<lambda>x. li_googleId x \<noteq> bookId) (readingListItem s)\<rparr>)"
proof -
  let ?row = "\<lparr>rb_googleId = bookId, rb_title = bi_title bookInfo,
               rb_authors = Some (bi_authors bookInfo), rb_thumbnail = bi_thumbnail bookInfo,
               rb_pageCount = Some (bi_pageCount bookInfo), rb_rating = num_or_null rating,
               rb_review = or_null review\<rparr>"
  have "rb_googleId ?row \<notin> rb_googleId ` set (readBook s)"
    using assms by simp
  then have "prisma_create rb_googleId ?row (readBook s) = Inr (readBook s @ [?row])"
    by (rule prisma_create_fresh)
  then show ?thesis
    by (simp add: markAsRead_store_def Let_def prisma_deleteMany_def)
qed

lemma markAsRead_store_duplicate:
  assumes "bookId \<in> rb_googleId ` set (readBook s)"
  shows "markAsRead_store bookId rating review bookInfo s =
           (MarkFail ''Este libro ya fue marcado como leido anteriormente'', s)"
proof -
  let ?row = "\<lparr>rb_googleId = bookId, rb_title = bi_title bookInfo,
               rb_authors = Some (bi_authors bookInfo), rb_thumbnail = bi_thumbnail bookInfo,
               rb_pageCount = Some (bi_pageCount bookInfo), rb_rating = num_or_null rating,
               rb_review = or_null review\<rparr>"
  have "rb_googleId ?row \<in> rb_googleId ` set (readBook s)"
    using assms by simp
  then have "prisma_create rb_googleId ?row (readBook s) = Inl P2002"
    by (rule prisma_create_duplicate)
  then show ?thesis
    by (simp add: markAsRead_store_def Let_def)
qed

subsection \<open>The search, step by step\<close>

lemma filter_valid_Some:
  "filter_valid items = Some valid \<Longrightarrow>
     valid = filter (\<lambda>i. hasBasicInfo i \<and> isNotProblematicId i = Some True) items"
  by (induction items arbitrary: valid)
     (auto simp: valid_book_def split: option.splits if_splits)

lemma filter_valid_None:
  "(filter_valid items = None) = (\<exists>i \<in> set items. v_id i = None)"
  by (induction items)
     (auto simp: valid_book_def isNotProblematicId_def split: option.splits)

lemma to_found_book_valid:
  assumes "hasBasicInfo item" and "isNotProblematicId item = Some True"
  shows "\<exists>i. fb_id (to_found_book item) = Some i \<and> i \<noteq> []
           \<and> \<not> str_includes i ''AAAMAAJ'' \<and> \<not> str_includes i ''AAAQBAJ''
           \<and> truthy_string (fb_title (to_found_book item))"
  using assms
  by (auto simp: hasBasicInfo_def isNotProblematicId_def to_found_book_def truthy_string_def
      split: option.splits)

lemma slice0_positive: "0 \<le> n \<Longrightarrow> slice0 n xs = take (nat n) xs"
  by (simp add: slice0_def)

lemma length_slice0: "0 \<le> n \<Longrightarrow> int (length (slice0 n xs)) \<le> n"
  by (simp add: slice0_def min_def, arith)

lemma sr_books_searchBooks:
  assumes "maxResults = (case maxResults_arg of None \<Rightarrow> 10 | Some m \<Rightarrow> m)"
  shows "sr_books (fst (searchBooks e query maxResults_arg s)) =
     (case volumes_search e (trace s) query (maxResults * 2) of
        Rejected \<Rightarrow> []
      | NotOk status \<Rightarrow> []
      | OkJson None \<Rightarrow> []
      | OkJson (Some items) \<Rightarrow>
          (case filter_valid items of
             None \<Rightarrow> []
           | Some valid \<Rightarrow> map to_found_book (slice0 maxResults valid)))"
  unfolding assms
  by (simp add: searchBooks_def Let_def search_failed_def slice0_def
      split: fetched.splits option.splits list.splits)

lemma trace_searchBooks:
  assumes "maxResults = (case maxResults_arg of None \<Rightarrow> 10 | Some m \<Rightarrow> m)"
  shows "trace (snd (searchBooks e query maxResults_arg s)) =
     trace s @ [VolumesSearch query (maxResults * 2)]"
  unfolding assms
  by (simp add: searchBooks_def Let_def split: fetched.splits option.splits list.splits)

text \<open>
  A volume without an identifier is not filtered out: \<^verbatim>\<open>item.id.includes\<close> throws on it,
  and the search answers with its error and no books, whatever else the API returned.
\<close>

lemma searchBooks_of_volume_without_id:
  "searchBooks
     ((sample_env [])\<lparr>volumes_search := (\<lambda>tr q n. OkJson (Some [fundacion, without_id, yo_robot]))\<rparr>)
     ''Asimov'' None empty_store
     = (SearchError ''Error al buscar libros'' [],
        \<lparr>readingListItem = [], readBook = [], trace = [VolumesSearch ''Asimov'' 20]\<rparr>)"
  by code_simp

subsection \<open>Counting authors, sorting and rounding\<close>

lemma keys_assign:
  "map fst (assign kvs a v) = (if a \<in> fst ` set kvs then map fst kvs else map fst kvs @ [a])"
  by (induction kvs a v rule: assign.induct) auto

lemma map_of_assign: "map_of (assign kvs a v) x = (if x = a then Some v else map_of kvs x)"
  by (induction kvs a v rule: assign.induct) auto

text \<open>An author whose name \<^verbatim>\<open>Object.prototype\<close> does not have is counted as in a dictionary.\<close>

lemma count_author_ordinary:
  assumes "inherited a = None"
  shows "count_author counts a = assign counts a (plus_one (map_of counts a) None)"
  using assms by (auto simp: count_author_def inherited_def split: if_splits)

lemma foldl_count_author:
  assumes "\<forall>a \<in> set names. inherited a = None"
  shows "distinct (map fst (foldl count_author [] names))
       \<and> (\<forall>x. map_of (foldl count_author [] names) x =
             (if x \<in> set names then Some (CountNumber (count_list names x)) else None))"
  using assms
proof (induction names rule: rev_induct)
  case Nil
  then show ?case by simp
next
  case (snoc a names)
  define counts where "counts = foldl count_author [] names"
  from snoc have d: "distinct (map fst counts)"
    and m: "\<And>x. map_of counts x =
               (if x \<in> set names then Some (CountNumber (count_list names x)) else None)"
    by (simp_all add: counts_def)
  from snoc.prems have a: "inherited a = None"
    by simp
  have step: "foldl count_author [] (names @ [a])
                = assign counts a (plus_one (map_of counts a) None)"
    by (simp add: counts_def count_author_ordinary [OF a])
  have "distinct (map fst (assign counts a (plus_one (map_of counts a) None)))"
    using d by (simp add: keys_assign)
  moreover have "map_of (assign counts a (plus_one (map_of counts a) None)) x =
      (if x \<in> set (names @ [a]) then Some (CountNumber (count_list (names @ [a]) x)) else None)"
    for x
    by (simp add: map_of_assign m)
  ultimately show ?case
    unfolding step by blast
qed

lemma authorCounts_entries:
  assumes "\<forall>a \<in> set names. inherited a = None"
      and "(a, c) \<in> set (foldl count_author [] names)"
  shows "a \<in> set names \<and> c = CountNumber (count_list names a)"
proof -
  have d: "distinct (map fst (foldl count_author [] names))"
    and m: "\<And>x. map_of (foldl count_author [] names) x =
               (if x \<in> set names then Some (CountNumber (count_list names x)) else None)"
    using foldl_count_author [OF assms(1)] by simp_all
  from d assms(2) have "map_of (foldl count_author [] names) a = Some c"
    by simp
  with m [of a] show ?thesis
    by (auto split: if_splits)
qed

lemma authorCounts_complete:
  assumes "\<forall>a \<in> set names. inherited a = None"
      and "a \<in> set names"
  shows "(a, CountNumber (count_list names a)) \<in> set (foldl count_author [] names)"
proof -
  have "map_of (foldl count_author [] names) a = Some (CountNumber (count_list names a))"
    using foldl_count_author [OF assms(1)] assms(2) by simp
  then show ?thesis by (rule map_of_SomeD)
qed

lemma set_Object_entries: "set (Object_entries kvs) = set kvs"
  by (auto simp: Object_entries_def)

lemma distinct_Object_entries:
  assumes "distinct (map fst kvs)"
  shows "distinct (map fst (Object_entries kvs))"
proof -
  from assms have d: "distinct kvs" and i: "inj_on fst (set kvs)"
    by (simp_all add: distinct_map)
  have "distinct (Object_entries kvs)"
    using d by (auto simp: Object_entries_def)
  moreover have "inj_on fst (set (Object_entries kvs))"
    using i by (simp add: set_Object_entries)
  ultimately show ?thesis by (simp add: distinct_map)
qed

text \<open>
  On entries whose counts are all numbers the comparator is consistent, and the sort
  is the stable sort by descending count.
\<close>

lemma insert_sorted_numbers:
  assumes "\<forall>kv \<in> set (x # ys). \<exists>k n. kv = (k, CountNumber n)"
  shows "insert_sorted by_count x ys
           = insort_key (\<lambda>kv. case snd kv of CountNumber n \<Rightarrow> - int n | CountText t \<Rightarrow> 0) x ys"
  using assms
  by (induction ys) (auto simp: stays_before_def)

lemma Array_sort_numbers:
  assumes "\<forall>kv \<in> set xs. \<exists>k n. kv = (k, CountNumber n)"
  shows "Array_sort by_count xs
           = sort_key (\<lambda>kv. case snd kv of CountNumber n \<Rightarrow> - int n | CountText t \<Rightarrow> 0) xs"
  using assms
proof (induction xs)
  case Nil
  then show ?case by (simp add: Array_sort_def)
next
  case (Cons x xs)
  define f :: "string \<times> count_value \<Rightarrow> int"
    where "f = (\<lambda>kv. case snd kv of CountNumber n \<Rightarrow> - int n | CountText t \<Rightarrow> 0)"
  from Cons have rest: "Array_sort by_count xs = sort_key f xs"
    by (simp add: f_def)
  have "\<forall>kv \<in> set (x # sort_key f xs). \<exists>k n. kv = (k, CountNumber n)"
    using Cons.prems by simp
  then have "insert_sorted by_count x (sort_key f xs) = insort_key f x (sort_key f xs)"
    unfolding f_def by (rule insert_sorted_numbers)
  then show ?case
    using rest by (simp add: Array_sort_def sort_key_def f_def [symmetric])
qed

text \<open>The first three of a list sorted by a key.\<close>

lemma top3:
  fixes entries :: "'a list" and f :: "'a \<Rightarrow> int"
  defines "best \<equiv> take 3 (sort_key f entries)"
  shows "length best \<le> 3"
    and "sorted_wrt (\<lambda>x y. f x \<le> f y) best"
    and "set best \<subseteq> set entries"
    and "distinct (map g entries) \<Longrightarrow> distinct (map g best)"
    and "kv \<in> set entries \<Longrightarrow> kv \<notin> set best \<Longrightarrow>
           length best = 3 \<and> (\<forall>t \<in> set best. f t \<le> f kv)"
proof -
  define sorted_entries where "sorted_entries = sort_key f entries"
  define others where "others = drop 3 sorted_entries"
  have best: "best = take 3 sorted_entries"
    by (simp add: best_def sorted_entries_def)
  have whole: "best @ others = sorted_entries"
    by (simp add: best others_def)
  have same: "set sorted_entries = set entries"
    by (simp add: sorted_entries_def)
  have "sorted (map f sorted_entries)"
    unfolding sorted_entries_def by (rule sorted_sort_key)
  then have sorted: "sorted_wrt (\<lambda>x y. f x \<le> f y) sorted_entries"
    by (simp add: sorted_map)
  show "length best \<le> 3" by (simp add: best)
  show "sorted_wrt (\<lambda>x y. f x \<le> f y) best"
    unfolding best using sorted by (rule sorted_wrt_take)
  show "set best \<subseteq> set entries"
    unfolding best same [symmetric] by (rule set_take_subset)
  show "distinct (map g best)" if "distinct (map g entries)"
  proof -
    from that have "distinct (map g sorted_entries)"
      by (simp add: distinct_map sorted_entries_def)
    then have "distinct (take 3 (map g sorted_entries))"
      by (rule distinct_take)
    then show ?thesis
      by (simp add: best take_map)
  qed
  show "length best = 3 \<and> (\<forall>t \<in> set best. f t \<le> f kv)"
    if "kv \<in> set entries" and "kv \<notin> set best"
  proof -
    have "set best \<union> set others = set entries"
      using whole same by (metis set_append)
    with that have kv: "kv \<in> set others"
      by blast
    then have "others \<noteq> []" by auto
    then have "3 < length sorted_entries"
      by (simp add: others_def)
    then have len: "length best = 3"
      by (simp add: best)
    have "sorted_wrt (\<lambda>x y. f x \<le> f y) (best @ others)"
      using sorted by (simp only: whole)
    then have "\<forall>t \<in> set best. \<forall>y \<in> set others. f t \<le> f y"
      by (simp add: sorted_wrt_append)
    with kv len show ?thesis by blast
  qed
qed

lemma tenths_close: "\<bar>of_nat (tenths x) / 10 - \<bar>x\<bar>\<bar> \<le> (1 / 20 :: rat)"
proof -
  define a where "a = \<bar>x\<bar>"
  define f :: rat where "f = of_int \<lfloor>10 * a + 1 / 2\<rfloor>"
  have "0 \<le> a" by (simp add: a_def)
  then have "0 \<le> \<lfloor>10 * a + 1 / 2\<rfloor>" by simp
  then have n: "(of_nat (tenths x) :: rat) = f"
    by (simp add: tenths_def f_def a_def)
  have "f \<le> 10 * a + 1 / 2" and "10 * a + 1 / 2 < f + 1"
    unfolding f_def by linarith+
  then have "\<bar>f / 10 - a\<bar> \<le> 1 / 20"
    by linarith
  then show ?thesis
    by (simp only: n a_def)
qed

lemma toFixed1_shape:
  "\<exists>sign whole d. toFixed1 x = sign @ show_nat whole @ ''.'' @ [digit_char d]
      \<and> (sign = [] \<or> sign = ''-'') \<and> d < 10
      \<and> \<bar>of_nat (10 * whole + d) / 10 - \<bar>x\<bar>\<bar> \<le> (1 / 20 :: rat)"
proof (intro exI conjI)
  show "toFixed1 x = (if x < 0 then ''-'' else []) @ show_nat (tenths x div 10) @ ''.''
          @ [digit_char (tenths x mod 10)]"
    by (simp add: toFixed1_def)
  show "(if x < 0 then ''-'' else []) = [] \<or> (if x < 0 then ''-'' else []) = ''-''"
    by simp
  show "tenths x mod 10 < 10" by simp
  show "\<bar>of_nat (10 * (tenths x div 10) + tenths x mod 10) / 10 - \<bar>x\<bar>\<bar> \<le> (1 / 20 :: rat)"
    using tenths_close [of x] by simp
qed

lemma toFixed1_zero: "toFixed1 0 = ''0.0''"
  by code_simp

text \<open>
  What \<^verbatim>\<open>getReadingStats\<close> returns when no author of a read book is named like a member
  of \<^verbatim>\<open>Object.prototype\<close>, and \<^verbatim>\<open>/\<close> is correctly rounded (its result is within the
  relative error \<open>2^-53\<close> of the quotient, as IEEE-754 has it): \<open>averageRating\<close> is a
  numeral with exactly one digit after the point, within half a tenth of the mean of
  the ratings that are set (up to the error of the division), and \<open>0.0\<close> when no read
  book carries a rating; \<open>topAuthors\<close> has at most 3 entries, each an author with its
  number of occurrences among the read books, no author twice, in descending order of
  that number, and no author left out has more occurrences than one that is listed.
\<close>

lemma getReadingStats_of_ordinary_authors:
  fixes e :: env and period :: "string option" and s :: state
  defines "rated \<equiv> filter (\<lambda>b. truthy_num (rb_rating b)) (readBook s)"
      and "names \<equiv> map (\<lambda>a. or_string a []) (filter truthy_string (map rb_authors (readBook s)))"
  defines "mean \<equiv> (if rated = [] then 0
                     else of_int (sum_list (map (\<lambda>b. or_number (rb_rating b) 0) rated))
                            / of_int (int (length rated)) :: rat)"
  assumes quotient: "\<And>a b. 0 < b \<Longrightarrow>
             \<bar>number_divide e a b - of_int a / of_int b\<bar> \<le> \<bar>of_int a / of_int b\<bar> / 2 ^ 53"
      and ordinary: "\<forall>a \<in> set names. inherited a = None"
  shows "\<exists>st. fst (getReadingStats e period s) = StatsOk st
       \<and> (\<exists>sign whole d. averageRating st = sign @ show_nat whole @ ''.'' @ [digit_char d]
             \<and> (sign = [] \<or> sign = ''-'') \<and> d < 10
             \<and> \<bar>of_nat (10 * whole + d) / 10 - \<bar>mean\<bar>\<bar> \<le> 1 / 20 + \<bar>mean\<bar> / 2 ^ 53)
       \<and> (rated = [] \<longrightarrow> averageRating st = ''0.0'')
       \<and> length (topAuthors st) \<le> 3
       \<and> sorted_wrt (\<lambda>x y. count_list names (fst y) \<le> count_list names (fst x)) (topAuthors st)
       \<and> distinct (map fst (topAuthors st))
       \<and> (\<forall>(a, c) \<in> set (topAuthors st). a \<in> set names \<and> c = CountNumber (count_list names a))
       \<and> (\<forall>a \<in> set names. a \<notin> fst ` set (topAuthors st) \<longrightarrow>
             length (topAuthors st) = 3
             \<and> (\<forall>(b, c) \<in> set (topAuthors st). count_list names a \<le> count_list names b))"
proof -
  define total where "total = sum_list (map (\<lambda>b. or_number (rb_rating b) 0) rated)"
  define avg where
    "avg = (if rated = [] then 0 else number_divide e total (int (length rated)))"
  define counts where "counts = foldl count_author [] names"
  define f :: "string \<times> count_value \<Rightarrow> int"
    where "f = (\<lambda>kv. case snd kv of CountNumber n \<Rightarrow> - int n | CountText t \<Rightarrow> 0)"
  define best where "best = take 3 (sort_key f (Object_entries counts))"
  define st where
    "st = \<lparr>totalBooksRead = length (readBook s),
           totalPages = sum_list (map (\<lambda>b. or_number (rb_pageCount b) 0) (readBook s)),
           averageRating = toFixed1 avg,
           topAuthors = best\<rparr>"
  have counts: "foldl (\<lambda>counts author. count_author counts (or_string author []))
                  [] (filter truthy_string (map rb_authors (readBook s))) = counts"
    by (simp add: counts_def names_def foldl_map)
  have numbers: "\<forall>kv \<in> set (Object_entries counts). \<exists>k n. kv = (k, CountNumber n)"
    using authorCounts_entries [OF ordinary]
    by (auto simp: set_Object_entries counts_def)
  have sort: "Array_sort by_count (Object_entries counts) = sort_key f (Object_entries counts)"
    unfolding f_def using numbers by (rule Array_sort_numbers)
  have run: "fst (getReadingStats e period s) = StatsOk st"
    by (simp add: getReadingStats_def Let_def foldl_plus_sum_list counts st_def best_def
        avg_def rated_def total_def sort)
  have distinct_counts: "distinct (map fst counts)"
    using foldl_count_author [OF ordinary] by (simp add: counts_def)
  note top = top3 [where entries = "Object_entries counts" and f = f, folded best_def]
  have members: "a \<in> set names \<and> c = CountNumber (count_list names a)"
    if "(a, c) \<in> set best" for a c
  proof -
    from that top(3) have "(a, c) \<in> set counts"
      by (auto simp: set_Object_entries)
    then show ?thesis
      unfolding counts_def by (rule authorCounts_entries [OF ordinary])
  qed
  have key: "f kv = - int (count_list names (fst kv))" if "kv \<in> set best" for kv
  proof -
    from that have "(fst kv, snd kv) \<in> set best"
      by simp
    then have "snd kv = CountNumber (count_list names (fst kv))"
      using members by blast
    then show ?thesis
      by (simp add: f_def)
  qed
  have descending: "sorted_wrt (\<lambda>x y. count_list names (fst y) \<le> count_list names (fst x)) best"
    using _ top(2)
  proof (rule sorted_wrt_mono_rel)
    fix x y
    assume "x \<in> set best" and "y \<in> set best" and "f x \<le> f y"
    then show "count_list names (fst y) \<le> count_list names (fst x)"
      by (simp add: key)
  qed
  have others: "length best = 3 \<and> (\<forall>(b, c) \<in> set best. count_list names a \<le> count_list names b)"
    if "a \<in> set names" and "a \<notin> fst ` set best" for a
  proof -
    from that(1) have "(a, CountNumber (count_list names a)) \<in> set (Object_entries counts)"
      by (simp add: set_Object_entries counts_def authorCounts_complete [OF ordinary])
    moreover from that(2) have "(a, CountNumber (count_list names a)) \<notin> set best"
      by force
    ultimately have "length best = 3
        \<and> (\<forall>t \<in> set best. f t \<le> f (a, CountNumber (count_list names a)))"
      by (rule top(5))
    then have "length best = 3"
      and "\<forall>t \<in> set best. count_list names a \<le> count_list names (fst t)"
      by (simp_all add: key) (simp_all add: f_def)
    then show ?thesis
      by force
  qed
  have close: "\<bar>avg - mean\<bar> \<le> \<bar>mean\<bar> / 2 ^ 53"
  proof (cases "rated = []")
    case True
    then show ?thesis by (simp add: avg_def mean_def)
  next
    case False
    then have "0 < int (length rated)" by simp
    from quotient [OF this, of total] False show ?thesis
      by (simp add: avg_def mean_def total_def)
  qed
  obtain sign whole d where shape: "toFixed1 avg = sign @ show_nat whole @ ''.'' @ [digit_char d]"
      "sign = [] \<or> sign = ''-''" "d < 10"
      and near: "\<bar>of_nat (10 * whole + d) / 10 - \<bar>avg\<bar>\<bar> \<le> (1 / 20 :: rat)"
    using toFixed1_shape [of avg] by blast
  from near close have "\<bar>of_nat (10 * whole + d) / 10 - \<bar>mean\<bar>\<bar> \<le> 1 / 20 + \<bar>mean\<bar> / 2 ^ 53"
    by linarith
  with shape have "\<exists>sign whole d. averageRating st = sign @ show_nat whole @ ''.'' @ [digit_char d]
             \<and> (sign = [] \<or> sign = ''-'') \<and> d < 10
             \<and> \<bar>of_nat (10 * whole + d) / 10 - \<bar>mean\<bar>\<bar> \<le> 1 / 20 + \<bar>mean\<bar> / 2 ^ 53"
    unfolding st_def by (intro exI [of _ sign] exI [of _ whole] exI [of _ d]) simp
  moreover have "rated = [] \<longrightarrow> averageRating st = ''0.0''"
    by (simp add: st_def avg_def toFixed1_zero)
  moreover have "length (topAuthors st) \<le> 3"
    and "sorted_wrt (\<lambda>x y. count_list names (fst y) \<le> count_list names (fst x)) (topAuthors st)"
    and "distinct (map fst (topAuthors st))"
    using top(1) descending top(4) [OF distinct_Object_entries [OF distinct_counts]]
    by (simp_all add: st_def)
  moreover have "\<forall>(a, c) \<in> set (topAuthors st). a \<in> set names \<and> c = CountNumber (count_list names a)"
    using members by (auto simp: st_def)
  moreover have "\<forall>a \<in> set names. a \<notin> fst ` set (topAuthors st) \<longrightarrow>
             length (topAuthors st) = 3
             \<and> (\<forall>(b, c) \<in> set (topAuthors st). count_list names a \<le> count_list names b)"
    using others by (simp add: st_def)
  ultimately show ?thesis
    using run by blast
qed

lemma getReadingStats_of_shelf:
  "fst (getReadingStats (sample_env []) None shelf_store)
     = StatsOk \<lparr>totalBooksRead = 4, totalPages = 683, averageRating = ''4.3'',
                topAuthors = [(''Isaac Asimov'', CountNumber 3), (''Stanislaw Lem'', CountNumber 1)]\<rparr>"
  by code_simp

subsection \<open>The trace of the tools and of the loop\<close>

lemma executed_append: "executed (evs @ evs') = executed evs @ executed evs'"
  by (induction evs rule: executed.induct) simp_all

lemma trace_addToReadingList:
  "trace (snd (addToReadingList e bookId priority notes s)) = trace s @ [VolumeGet bookId]"
proof (cases "fst (getBookDetails e bookId s)")
  case (DetailsError err)
  then show ?thesis by (simp add: addToReadingList_unresolved)
next
  case (Details d)
  then show ?thesis by (simp add: addToReadingList_resolved Let_def)
qed

lemma trace_markAsRead_store:
  "trace (snd (markAsRead_store bookId rating review bookInfo s)) = trace s"
  by (cases "bookId \<in> rb_googleId ` set (readBook s)")
     (simp_all add: markAsRead_store_fresh markAsRead_store_duplicate)

lemma trace_markAsRead:
  "trace (snd (markAsRead e bookId rating review s)) = trace s
   \<or> trace (snd (markAsRead e bookId rating review s)) = trace s @ [VolumeGet bookId]"
proof (cases "prisma_findFirst li_googleId bookId (readingListItem s)")
  case (Some p)
  then show ?thesis by (simp add: markAsRead_pending trace_markAsRead_store)
next
  case None
  obtain r s1 where run: "getBookDetails e bookId s = (r, s1)"
    by (cases "getBookDetails e bookId s")
  with getBookDetails_state [of e bookId s] have s1: "s1 = emit (VolumeGet bookId) s"
    by simp
  show ?thesis
    using None run s1 by (cases r) (simp_all add: markAsRead_def trace_markAsRead_store)
qed

text \<open>A tool only talks to the book API, and announces no tool call.\<close>

lemma trace_run_tool:
  "\<exists>evs. trace (snd (run_tool e functionName args s)) = trace s @ evs
         \<and> \<not> list_ex is_completion evs \<and> executed evs = []"
proof -
  have search: "\<exists>evs. trace (snd (searchBooks e q m s)) = trace s @ evs
         \<and> \<not> list_ex is_completion evs \<and> executed evs = []" for q m
    by (simp add: trace_searchBooks [OF refl])
  have details: "\<exists>evs. trace (snd (getBookDetails e b s)) = trace s @ evs
         \<and> \<not> list_ex is_completion evs \<and> executed evs = []" for b
    by (simp add: getBookDetails_state)
  have add: "\<exists>evs. trace (snd (addToReadingList e b p n s)) = trace s @ evs
         \<and> \<not> list_ex is_completion evs \<and> executed evs = []" for b p n
    by (simp add: trace_addToReadingList)
  have list: "\<exists>evs. trace (snd (getReadingList l s)) = trace s @ evs
         \<and> \<not> list_ex is_completion evs \<and> executed evs = []" for l
    by (simp add: getReadingList_def Let_def)
  have mark: "\<exists>evs. trace (snd (markAsRead e b r w s)) = trace s @ evs
         \<and> \<not> list_ex is_completion evs \<and> executed evs = []" for b r w
    using trace_markAsRead [of e b r w s] by auto
  have stats: "\<exists>evs. trace (snd (getReadingStats e p s)) = trace s @ evs
         \<and> \<not> list_ex is_completion evs \<and> executed evs = []" for p
    by (simp add: getReadingStats_totals)
  show ?thesis
    using search details add list mark stats
    by (cases args) (simp_all add: run_tool_def switch_tool_def split_beta)
qed


lemma switch_tool_unknown:
  assumes "functionName \<notin> set (map td_name toolDefinitions)"
  shows "switch_tool e functionName args s = Inr (RError ''Herramienta no encontrada'', s)"
  using assms by (simp add: switch_tool_def toolDefinitions_def)

lemma run_tool_unknown:
  assumes "functionName \<notin> set (map td_name toolDefinitions)"
  shows "run_tool e functionName args s = (RError ''Herramienta no encontrada'', s)"
  by (simp add: run_tool_def switch_tool_unknown [OF assms])

lemma run_tool_null:
  assumes "functionName \<in> set (map td_name toolDefinitions)"
  shows "run_tool e functionName None s = (RError (''Error al ejecutar '' @ functionName), s)"
  using assms by (auto simp: run_tool_def switch_tool_def toolDefinitions_def)

lemma JSON_parse_wellformed:
  "t \<noteq> Malformed \<Longrightarrow> \<exists>args. JSON_parse t = Inr args"
  by (cases t) (simp_all add: JSON_parse_def)

text \<open>
  The loop on tool calls whose arguments all parse: it ends normally, with one tool
  message per call, in the order of the calls, each with the identifier of its call.
\<close>

lemma run_tool_calls_wellformed:
  assumes "\<forall>tc \<in> set calls. tc_arguments tc \<noteq> Malformed"
  shows "\<exists>results s'. run_tool_calls e calls acc s = Inr (acc @ results, s')
       \<and> list_all2
           (\<lambda>tc m. \<exists>r. m = ToolMessage (tc_id tc) r
              \<and> (tc_name tc \<notin> set (map td_name toolDefinitions) \<longrightarrow>
                    r = RError ''Herramienta no encontrada'')
              \<and> (tc_name tc \<in> set (map td_name toolDefinitions) \<and> tc_arguments tc = JsonNull \<longrightarrow>
                    r = RError (''Error al ejecutar '' @ tc_name tc)))
           calls results"
  using assms
proof (induction calls arbitrary: acc s)
  case Nil
  then show ?case by simp
next
  case (Cons tc calls)
  from Cons.prems obtain args where parsed: "JSON_parse (tc_arguments tc) = Inr args"
    using JSON_parse_wellformed [of "tc_arguments tc"] by auto
  obtain r s1 where ran: "run_tool e (tc_name tc) args (emit (Executing (tc_name tc)) s) = (r, s1)"
    by (cases "run_tool e (tc_name tc) args (emit (Executing (tc_name tc)) s)")
  from Cons.prems have "\<forall>tc \<in> set calls. tc_arguments tc \<noteq> Malformed"
    by simp
  from Cons.IH [OF this, of "acc @ [ToolMessage (tc_id tc) r]" s1]
  obtain results s' where
      rest: "run_tool_calls e calls (acc @ [ToolMessage (tc_id tc) r]) s1
               = Inr ((acc @ [ToolMessage (tc_id tc) r]) @ results, s')"
      and each: "list_all2
           (\<lambda>tc m. \<exists>r. m = ToolMessage (tc_id tc) r
              \<and> (tc_name tc \<notin> set (map td_name toolDefinitions) \<longrightarrow>
                    r = RError ''Herramienta no encontrada'')
              \<and> (tc_name tc \<in> set (map td_name toolDefinitions) \<and> tc_arguments tc = JsonNull \<longrightarrow>
                    r = RError (''Error al ejecutar '' @ tc_name tc)))
           calls results"
    by blast
  have unknown: "r = RError ''Herramienta no encontrada''"
    if "tc_name tc \<notin> set (map td_name toolDefinitions)"
    using ran run_tool_unknown [OF that] by simp
  have null: "r = RError (''Error al ejecutar '' @ tc_name tc)"
    if "tc_name tc \<in> set (map td_name toolDefinitions)" and "tc_arguments tc = JsonNull"
  proof -
    from that(2) parsed have "args = None"
      by (simp add: JSON_parse_def)
    with ran run_tool_null [OF that(1)] show ?thesis by simp
  qed
  have "run_tool_calls e (tc # calls) acc s = Inr (acc @ ToolMessage (tc_id tc) r # results, s')"
    by (simp add: parsed ran rest)
  moreover have "list_all2
           (\<lambda>tc m. \<exists>r. m = ToolMessage (tc_id tc) r
              \<and> (tc_name tc \<notin> set (map td_name toolDefinitions) \<longrightarrow>
                    r = RError ''Herramienta no encontrada'')
              \<and> (tc_name tc \<in> set (map td_name toolDefinitions) \<and> tc_arguments tc = JsonNull \<longrightarrow>
                    r = RError (''Error al ejecutar '' @ tc_name tc)))
           (tc # calls) (ToolMessage (tc_id tc) r # results)"
    using each unknown null by simp
  ultimately show ?case by blast
qed

text \<open>
  The loop, however it ends: it adds no chat-completion request to the trace, and it
  announces the first \<open>k\<close> calls, in their order, all of them when it ends normally.
\<close>

lemma trace_run_tool_calls:
  "\<exists>evs k. trace (case_sum snd snd (run_tool_calls e calls acc s)) = trace s @ evs
      \<and> \<not> list_ex is_completion evs
      \<and> executed evs = take k (map tc_name calls)"
proof (induction calls arbitrary: acc s)
  case Nil
  then show ?case by simp
next
  case (Cons tc calls)
  show ?case
  proof (cases "JSON_parse (tc_arguments tc)")
    case (Inl err)
    then show ?thesis
      by (intro exI [of _ "[]"] exI [of _ 0]) simp
  next
    case (Inr args)
    obtain r s1 where ran: "run_tool e (tc_name tc) args (emit (Executing (tc_name tc)) s) = (r, s1)"
      by (cases "run_tool e (tc_name tc) args (emit (Executing (tc_name tc)) s)")
    from trace_run_tool [of e "tc_name tc" args "emit (Executing (tc_name tc)) s"] ran
    obtain evs1 where evs1: "trace s1 = trace s @ Executing (tc_name tc) # evs1"
        and quiet1: "\<not> list_ex is_completion evs1" and none1: "executed evs1 = []"
      by auto
    from Cons.IH [of "acc @ [ToolMessage (tc_id tc) r]" s1]
    obtain evs2 k where
        evs2: "trace (case_sum snd snd (run_tool_calls e calls (acc @ [ToolMessage (tc_id tc) r]) s1))
                 = trace s1 @ evs2"
        and quiet2: "\<not> list_ex is_completion evs2"
        and some2: "executed evs2 = take k (map tc_name calls)"
      by blast
    have "trace (case_sum snd snd (run_tool_calls e (tc # calls) acc s))
            = trace s @ (Executing (tc_name tc) # evs1 @ evs2)"
      by (simp add: Inr ran evs2 evs1)
    moreover have "\<not> list_ex is_completion (Executing (tc_name tc) # evs1 @ evs2)"
      using quiet1 quiet2 by simp
    moreover have "executed (Executing (tc_name tc) # evs1 @ evs2)
            = take (Suc k) (map tc_name (tc # calls))"
      by (simp add: executed_append none1 some2)
    ultimately show ?thesis by blast
  qed
qed

lemma snd_llm_call: "snd (llm_call e req s) = emit (ChatCompletion req) s"
  by (simp add: llm_call_def Let_def split: fetched.splits list.splits)

lemma POST_with_tool_calls:
  assumes "chat_completions e (trace s) (first_request messages) = OkJson (am # others)"
      and "am_tool_calls am = Some calls" and "calls \<noteq> []"
  shows "POST e (Some messages) s =
           (case run_tool_calls e calls [] (emit (ChatCompletion (first_request messages)) s) of
              Inl (err, s2) \<Rightarrow> (Error500, s2)
            | Inr (results, s2) \<Rightarrow>
                (case llm_call e (second_request messages am results) s2 of
                   (Inl err, s3) \<Rightarrow> (Error500, s3)
                 | (Inr finalMessage, s3) \<Rightarrow> (Ok200 (am_content finalMessage) (map tc_name calls), s3)))"
proof -
  have first: "llm_call e (first_request messages) s
      = (Inr am, emit (ChatCompletion (first_request messages)) s)"
    by (simp add: llm_call_def assms(1))
  from assms(3) obtain tc rest where calls: "calls = tc # rest"
    by (cases calls) auto
  show ?thesis
    using assms(2) unfolding calls POST_def
    by (simp add: first del: run_tool_calls.simps)
qed

lemma POST_without_tool_calls:
  assumes "requested_calls e messages s = []"
  shows "snd (POST e (Some messages) s) = emit (ChatCompletion (first_request messages)) s"
  using assms
  by (auto simp: POST_def llm_call_def requested_calls_def Let_def
      split: fetched.splits list.splits option.splits)

text \<open>
  A turn in which the arguments of every requested tool call parse: the loop ends
  normally with one tool message per call, in order and with the identifier of the call,
  and the second request to the LLM is sent with exactly these tool messages.
\<close>

lemma POST_tool_round:
  assumes answer: "chat_completions e (trace s) (first_request messages) = OkJson (am # others)"
      and calls: "am_tool_calls am = Some calls" "calls \<noteq> []"
      and wellformed: "\<forall>tc \<in> set calls. tc_arguments tc \<noteq> Malformed"
  shows "\<exists>results s2.
           run_tool_calls e calls [] (emit (ChatCompletion (first_request messages)) s)
             = Inr (results, s2)
         \<and> list_all2
             (\<lambda>tc m. \<exists>r. m = ToolMessage (tc_id tc) r
                \<and> (tc_name tc \<notin> set (map td_name toolDefinitions) \<longrightarrow>
                      r = RError ''Herramienta no encontrada'')
                \<and> (tc_name tc \<in> set (map td_name toolDefinitions) \<and> tc_arguments tc = JsonNull \<longrightarrow>
                      r = RError (''Error al ejecutar '' @ tc_name tc)))
             calls results
         \<and> snd (POST e (Some messages) s)
             = emit (ChatCompletion (second_request messages am results)) s2"
proof -
  from run_tool_calls_wellformed [OF wellformed, of e "[]" "emit (ChatCompletion (first_request messages)) s"]
  obtain results s2 where
      loop: "run_tool_calls e calls [] (emit (ChatCompletion (first_request messages)) s)
               = Inr (results, s2)"
      and each: "list_all2
             (\<lambda>tc m. \<exists>r. m = ToolMessage (tc_id tc) r
                \<and> (tc_name tc \<notin> set (map td_name toolDefinitions) \<longrightarrow>
                      r = RError ''Herramienta no encontrada'')
                \<and> (tc_name tc \<in> set (map td_name toolDefinitions) \<and> tc_arguments tc = JsonNull \<longrightarrow>
                      r = RError (''Error al ejecutar '' @ tc_name tc)))
             calls results"
    by auto
  have "snd (POST e (Some messages) s) = snd (llm_call e (second_request messages am results) s2)"
    by (simp add: POST_with_tool_calls [OF answer calls] loop split: prod.splits sum.splits)
  then have "snd (POST e (Some messages) s)
      = emit (ChatCompletion (second_request messages am results)) s2"
    by (simp add: snd_llm_call)
  with loop each show ?thesis by blast
qed

text \<open>
  A tool call whose name is not one of the six known tool names, once it has reached
  the dispatcher (the \<^verbatim>\<open>switch\<close> and the \<^verbatim>\<open>try\<close> around it, which receive the name and the
  parsed arguments): the dispatcher does not throw and returns the structured error
  \<^verbatim>\<open>{error: 'Herramienta no encontrada'}\<close>, whatever the arguments are, and leaves the
  state as it is. In a turn whose tool calls all have arguments that parse, the unknown
  call at position \<open>i\<close> yields the tool message at position \<open>i\<close>, with the identifier of
  the call and that error, there is one tool message per call, and the turn goes on to
  the second request to the LLM, which carries these messages.
\<close>

lemma unknown_tool_call_with_parsed_arguments:
  assumes unknown: "functionName \<notin> set (map td_name toolDefinitions)"
  shows "switch_tool e functionName args s = Inr (RError ''Herramienta no encontrada'', s)
       \<and> run_tool e functionName args s = (RError ''Herramienta no encontrada'', s)
       \<and> (\<forall>messages am others calls i s0.
             chat_completions e (trace s0) (first_request messages) = OkJson (am # others)
             \<and> am_tool_calls am = Some calls
             \<and> i < length calls \<and> tc_name (calls ! i) = functionName
             \<and> (\<forall>tc \<in> set calls. tc_arguments tc \<noteq> Malformed) \<longrightarrow>
             (\<exists>results s2.
                run_tool_calls e calls [] (emit (ChatCompletion (first_request messages)) s0)
                  = Inr (results, s2)
                \<and> length results = length calls
                \<and> results ! i = ToolMessage (tc_id (calls ! i)) (RError ''Herramienta no encontrada'')
                \<and> snd (POST e (Some messages) s0)
                    = emit (ChatCompletion (second_request messages am results)) s2))"
proof (intro conjI allI impI)
  show "switch_tool e functionName args s = Inr (RError ''Herramienta no encontrada'', s)"
    using unknown by (rule switch_tool_unknown)
  show "run_tool e functionName args s = (RError ''Herramienta no encontrada'', s)"
    using unknown by (rule run_tool_unknown)
next
  fix messages am others calls i and s0 :: state
  assume turn: "chat_completions e (trace s0) (first_request messages) = OkJson (am # others)
             \<and> am_tool_calls am = Some calls
             \<and> i < length calls \<and> tc_name (calls ! i) = functionName
             \<and> (\<forall>tc \<in> set calls. tc_arguments tc \<noteq> Malformed)"
  then have nonempty: "calls \<noteq> []" by auto
  from turn have answer: "chat_completions e (trace s0) (first_request messages) = OkJson (am # others)"
    and calls: "am_tool_calls am = Some calls"
    and wellformed: "\<forall>tc \<in> set calls. tc_arguments tc \<noteq> Malformed"
    by simp_all
  from POST_tool_round [OF answer calls nonempty wellformed]
  obtain results s2 where
      loop: "run_tool_calls e calls [] (emit (ChatCompletion (first_request messages)) s0)
               = Inr (results, s2)"
      and each: "list_all2
             (\<lambda>tc m. \<exists>r. m = ToolMessage (tc_id tc) r
                \<and> (tc_name tc \<notin> set (map td_name toolDefinitions) \<longrightarrow>
                      r = RError ''Herramienta no encontrada'')
                \<and> (tc_name tc \<in> set (map td_name toolDefinitions) \<and> tc_arguments tc = JsonNull \<longrightarrow>
                      r = RError (''Error al ejecutar '' @ tc_name tc)))
             calls results"
      and second: "snd (POST e (Some messages) s0)
             = emit (ChatCompletion (second_request messages am results)) s2"
    by blast
  from each have same_length: "length results = length calls"
    by (simp add: list_all2_lengthD)
  from turn have i: "i < length calls" and name: "tc_name (calls ! i) = functionName"
    by simp_all
  from list_all2_nthD [OF each i] unknown name
  have "results ! i = ToolMessage (tc_id (calls ! i)) (RError ''Herramienta no encontrada'')"
    by auto
  with loop same_length second
  show "\<exists>results s2.
                run_tool_calls e calls [] (emit (ChatCompletion (first_request messages)) s0)
                  = Inr (results, s2)
                \<and> length results = length calls
                \<and> results ! i = ToolMessage (tc_id (calls ! i)) (RError ''Herramienta no encontrada'')
                \<and> snd (POST e (Some messages) s0)
                    = emit (ChatCompletion (second_request messages am results)) s2"
    by blast
qed

text \<open>Such a turn: the LLM asks for a known tool and for one that does not exist.\<close>

lemma POST_with_unknown_tool_call:
  "POST (sample_env [add_call, unknown_call]) (Some user_asks) empty_store
       = (Ok200 (Some ''Listo.'') [''addToReadingList'', ''deleteBook''],
          \<lparr>readingListItem = [fundacion_item], readBook = [],
           trace =
             [ChatCompletion (first_request user_asks),
              Executing ''addToReadingList'', VolumeGet ''ABC123'', Executing ''deleteBook'',
              ChatCompletion
                (second_request user_asks
                   \<lparr>am_content = None, am_tool_calls = Some [add_call, unknown_call]\<rparr>
                   [ToolMessage ''call_1''
                      (RAdd (AddOk (dq @ ''Fundacion'' @ dq @ '' agregado a tu lista de lectura'')
                               fundacion_item)),
                    ToolMessage ''call_3'' (RError ''Herramienta no encontrada'')])]\<rparr>)"
  by code_simp

subsection \<open>Claim C1: one tool result per tool call\<close>

text \<open>
  Claim C1 says that a chat request whose first answer has \<open>N\<close> tool calls produces
  exactly \<open>N\<close> tool messages, in order and with the identifiers of the calls, before the
  second call of the LLM, and that a failure in one tool call becomes an error result
  instead of ending the batch or the request. \<open>POST_tool_round\<close> above shows this for
  tool calls whose arguments parse (the TypeError on \<^verbatim>\<open>null\<close> arguments included). It
  fails for arguments that are not JSON, since \<^verbatim>\<open>JSON.parse\<close> stands outside the
  \<^verbatim>\<open>try\<close>: below, the first answer has two tool calls; the first call is executed and
  adds its row, the arguments of the second do not parse, and the request ends with
  status 500, with no tool message sent and no second call of the LLM.
\<close>

theorem POST_aborts_on_malformed_arguments:
  "POST (sample_env [add_call, broken_call]) (Some user_asks) empty_store
     = (Error500,
        \<lparr>readingListItem = [fundacion_item], readBook = [],
         trace =
           [ChatCompletion (first_request user_asks),
            Executing ''addToReadingList'', VolumeGet ''ABC123'']\<rparr>)"
  by code_simp

subsection \<open>Claim C2: at most two calls of the LLM\<close>

text \<open>
  Claim C2. For every chat request, what \<^verbatim>\<open>POST\<close> adds to the trace is nothing (the
  body has no messages), or the first chat-completion request followed by events of the
  tools, or that followed by a second chat-completion request, which is then the last
  event. So there are at most two calls of the LLM provider. The first request carries
  the six tool definitions, the second carries none. The events in between are no calls
  of the LLM, and the tool calls announced among them are the first \<open>k\<close> tool calls of
  the first answer, in order: one round of tool execution at most, none after the second
  answer.
\<close>

theorem POST_calls_the_LLM_at_most_twice:
  "\<exists>evs. trace (snd (POST e body s)) = trace s @ evs
     \<and> (evs = []
        \<or> (\<exists>messages tool_evs k.
              body = Some messages
              \<and> lr_tools (first_request messages) = Some toolDefinitions
              \<and> length toolDefinitions = 6
              \<and> \<not> list_ex is_completion tool_evs
              \<and> executed tool_evs = take k (map tc_name (requested_calls e messages s))
              \<and> (evs = ChatCompletion (first_request messages) # tool_evs
                 \<or> (\<exists>am results.
                       lr_tools (second_request messages am results) = None
                       \<and> evs = ChatCompletion (first_request messages) # tool_evs
                                 @ [ChatCompletion (second_request messages am results)]))))"
proof (cases body)
  case None
  then have "trace (snd (POST e body s)) = trace s @ []"
    by (simp add: POST_def)
  then show ?thesis by blast
next
  case (Some messages)
  let ?first = "ChatCompletion (first_request messages)"
  have tools: "lr_tools (first_request messages) = Some toolDefinitions" "length toolDefinitions = 6"
    by (simp_all add: first_request_def toolDefinitions_def)
  have no_tools: "lr_tools (second_request messages am results) = None" for am results
    by (simp add: second_request_def)
  show ?thesis
  proof (cases "requested_calls e messages s = []")
    case True
    then have "trace (snd (POST e body s)) = trace s @ [?first]"
      by (simp add: Some POST_without_tool_calls)
    moreover have "\<not> list_ex is_completion []" and "executed [] = take 0 (map tc_name (requested_calls e messages s))"
      by simp_all
    ultimately show ?thesis
      using Some tools by blast
  next
    case False
    then obtain am others calls where
        answer: "chat_completions e (trace s) (first_request messages) = OkJson (am # others)"
        and calls: "am_tool_calls am = Some calls" "calls \<noteq> []"
        and requested: "requested_calls e messages s = calls"
      by (auto simp: requested_calls_def split: fetched.splits list.splits option.splits)
    note post = POST_with_tool_calls [OF answer calls]
    from trace_run_tool_calls [of e calls "[]" "emit ?first s"]
    obtain tool_evs k where
        loop_trace: "trace (case_sum snd snd (run_tool_calls e calls [] (emit ?first s)))
                       = trace s @ ?first # tool_evs"
        and quiet: "\<not> list_ex is_completion tool_evs"
        and announced: "executed tool_evs = take k (map tc_name (requested_calls e messages s))"
      unfolding requested by auto
    show ?thesis
    proof (cases "run_tool_calls e calls [] (emit ?first s)")
      case (Inl thrown)
      then have "snd (POST e body s) = snd thrown"
        by (simp add: Some post split: prod.splits)
      with loop_trace Inl have "trace (snd (POST e body s)) = trace s @ ?first # tool_evs"
        by simp
      then show ?thesis
        using Some tools quiet announced by blast
    next
      case (Inr ended)
      obtain results s2 where ended: "ended = (results, s2)"
        by (cases ended)
      have "snd (POST e body s) = snd (llm_call e (second_request messages am results) s2)"
        by (simp add: Some post Inr ended split: prod.splits sum.splits)
      then have "trace (snd (POST e body s))
          = trace s2 @ [ChatCompletion (second_request messages am results)]"
        by (simp add: snd_llm_call)
      with loop_trace Inr ended
      have "trace (snd (POST e body s))
          = trace s @ ?first # tool_evs @ [ChatCompletion (second_request messages am results)]"
        by simp
      then show ?thesis
        using Some tools quiet announced no_tools by blast
    qed
  qed
qed

theorem POST_calls_the_LLM_at_most_twice_witness:
  "trace (snd (POST (sample_env [add_call, null_call]) (Some user_asks) empty_store))
     = [ChatCompletion (first_request user_asks),
        Executing ''addToReadingList'', VolumeGet ''ABC123'', Executing ''getReadingStats'',
        ChatCompletion
          (second_request user_asks
             \<lparr>am_content = None, am_tool_calls = Some [add_call, null_call]\<rparr>
             [ToolMessage ''call_1''
                (RAdd (AddOk (dq @ ''Fundacion'' @ dq @ '' agregado a tu lista de lectura'')
                         fundacion_item)),
              ToolMessage ''call_4'' (RError ''Error al ejecutar getReadingStats'')])]
   \<and> length (filter is_completion
         (trace (snd (POST (sample_env [add_call, null_call]) (Some user_asks) empty_store)))) \<le> 2"
proof -
  have run: "trace (snd (POST (sample_env [add_call, null_call]) (Some user_asks) empty_store))
     = [ChatCompletion (first_request user_asks),
        Executing ''addToReadingList'', VolumeGet ''ABC123'', Executing ''getReadingStats'',
        ChatCompletion
          (second_request user_asks
             \<lparr>am_content = None, am_tool_calls = Some [add_call, null_call]\<rparr>
             [ToolMessage ''call_1''
                (RAdd (AddOk (dq @ ''Fundacion'' @ dq @ '' agregado a tu lista de lectura'')
                         fundacion_item)),
              ToolMessage ''call_4'' (RError ''Error al ejecutar getReadingStats'')])]"
    by code_simp
  from POST_calls_the_LLM_at_most_twice [of "sample_env [add_call, null_call]" "Some user_asks" empty_store]
  obtain evs where evs: "trace (snd (POST (sample_env [add_call, null_call]) (Some user_asks) empty_store))
               = trace empty_store @ evs"
    and shape: "evs = []
        \<or> (\<exists>messages tool_evs k.
              \<not> list_ex is_completion tool_evs
              \<and> (evs = ChatCompletion (first_request messages) # tool_evs
                 \<or> (\<exists>am results.
                       evs = ChatCompletion (first_request messages) # tool_evs
                                 @ [ChatCompletion (second_request messages am results)])))"
    by blast
  have quiet: "\<not> list_ex is_completion tool_evs \<Longrightarrow> filter is_completion tool_evs = []" for tool_evs
    by (simp add: list_ex_iff filter_empty_conv)
  from shape have "length (filter is_completion evs) \<le> 2"
    by (auto simp: quiet)
  with evs have "length (filter is_completion
         (trace (snd (POST (sample_env [add_call, null_call]) (Some user_asks) empty_store)))) \<le> 2"
    by (simp add: empty_store_def)
  with run show ?thesis by blast
qed

subsection \<open>Claim C3: marking a pending book as read\<close>

text \<open>
  Claim C3, as the code has it. For every \<open>bookId\<close> that has a matching pending row
  and no read row yet, \<^verbatim>\<open>markAsRead\<close> builds the read row from the pending row's
  title, authors and thumbnail without any request to the book API (the trace is
  unchanged), appends exactly that one row to the read table, and deletes every pending
  row with that \<open>bookId\<close>: \<^verbatim>\<open>getReadingList\<close> afterwards has no book with that
  identifier and \<^verbatim>\<open>getReadingStats\<close> afterwards reports one more book read.
\<close>

theorem markAsRead_of_pending_book:
  assumes pending: "prisma_findFirst li_googleId bookId (readingListItem s) = Some p"
      and unread: "bookId \<notin> rb_googleId ` set (readBook s)"
  shows "(let row = \<lparr>rb_googleId = bookId, rb_title = li_title p,
                     rb_authors = Some (or_string (li_authors p) ''Autor desconocido''),
                     rb_thumbnail = li_thumbnail p, rb_pageCount = Some 0,
                     rb_rating = num_or_null rating, rb_review = or_null review\<rparr>;
              s' = snd (markAsRead e bookId rating review s)
          in fst (markAsRead e bookId rating review s)
               = MarkOk (dq @ show_title (li_title p) @ dq @ '' marcado como leido'') row
           \<and> trace s' = trace s
           \<and> readBook s' = readBook s @ [row]
           \<and> readingListItem s' = filter (\<lambda>x. li_googleId x \<noteq> bookId) (readingListItem s)
           \<and> bookId \<notin> li_googleId ` set (lr_books (fst (getReadingList limit s')))
           \<and> map_option totalBooksRead (stats_of (fst (getReadingStats e period s)))
               = Some (length (readBook s))
           \<and> map_option totalBooksRead (stats_of (fst (getReadingStats e period' s')))
               = Some (length (readBook s) + 1))"
proof -
  let ?s' = "snd (markAsRead e bookId rating review s)"
  have run: "markAsRead e bookId rating review s =
      (MarkOk (dq @ show_title (li_title p) @ dq @ '' marcado como leido'')
         \<lparr>rb_googleId = bookId, rb_title = li_title p,
          rb_authors = Some (or_string (li_authors p) ''Autor desconocido''),
          rb_thumbnail = li_thumbnail p, rb_pageCount = Some 0,
          rb_rating = num_or_null rating, rb_review = or_null review\<rparr>,
       s\<lparr>readBook := readBook s @
            [\<lparr>rb_googleId = bookId, rb_title = li_title p,
              rb_authors = Some (or_string (li_authors p) ''Autor desconocido''),
              rb_thumbnail = li_thumbnail p, rb_pageCount = Some 0,
              rb_rating = num_or_null rating, rb_review = or_null review\<rparr>],
          readingListItem := filter (\<lambda>x. li_googleId x \<noteq> bookId) (readingListItem s)\<rparr>)"
    by (simp add: markAsRead_pending [OF pending] markAsRead_store_fresh [OF unread])
  have gone: "bookId \<notin> li_googleId ` set (readingListItem ?s')"
    by (auto simp: run)
  have "bookId \<notin> li_googleId ` set (lr_books (fst (getReadingList limit ?s')))"
    using gone getReadingList_subset [of limit ?s'] by blast
  then show ?thesis
    by (simp add: Let_def getReadingStats_totals) (simp add: run)
qed

theorem markAsRead_of_pending_book_witness:
  "prisma_findFirst li_googleId ''ABC123'' (readingListItem pending_store) = Some fundacion_item
   \<and> ''ABC123'' \<notin> rb_googleId ` set (readBook pending_store)
   \<and> markAsRead (sample_env []) ''ABC123'' (Some 5) None pending_store
       = (MarkOk (dq @ ''Fundacion'' @ dq @ '' marcado como leido'') fundacion_from_list,
          \<lparr>readingListItem = [], readBook = [yo_robot_read, fundacion_from_list],
           trace = trace pending_store\<rparr>)
   \<and> map_option totalBooksRead
         (stats_of (fst (getReadingStats (sample_env []) None
            (snd (markAsRead (sample_env []) ''ABC123'' (Some 5) None pending_store))))) = Some 2"
proof -
  have pending: "prisma_findFirst li_googleId ''ABC123'' (readingListItem pending_store) = Some fundacion_item"
    by (simp add: prisma_findFirst_def pending_store_def fundacion_item_def)
  have unread: "''ABC123'' \<notin> rb_googleId ` set (readBook pending_store)"
    by (simp add: pending_store_def yo_robot_read_def)
  have run: "markAsRead (sample_env []) ''ABC123'' (Some 5) None pending_store
       = (MarkOk (dq @ ''Fundacion'' @ dq @ '' marcado como leido'') fundacion_from_list,
          \<lparr>readingListItem = [], readBook = [yo_robot_read, fundacion_from_list],
           trace = trace pending_store\<rparr>)"
    by (simp add: markAsRead_def markAsRead_store_def prisma_findFirst_def prisma_create_def
        prisma_deleteMany_def pending_store_def fundacion_item_def yo_robot_read_def
        fundacion_from_list_def or_string_def or_null_def num_or_null_def show_title_def Let_def)
  have two: "length (readBook pending_store) + 1 = 2"
    by (simp add: pending_store_def)
  have "map_option totalBooksRead
         (stats_of (fst (getReadingStats (sample_env []) None
            (snd (markAsRead (sample_env []) ''ABC123'' (Some 5) None pending_store)))))
        = Some 2"
    using markAsRead_of_pending_book [OF pending unread, where e = "sample_env []"
        and rating = "Some 5" and review = None and period' = None]
    unfolding Let_def two by blast
  then show ?thesis
    using pending unread run by blast
qed

text \<open>
  Claim C3 as the specification words it asks only for a matching pending row. In the
  store below \<open>ABC123\<close> is pending and was read before (it was marked read straight
  from the book API, then put on the list). There \<^verbatim>\<open>markAsRead\<close> answers that the
  book was already marked read and changes nothing: the pending row stays, the list
  still shows it, and the number of books read stays 1.
\<close>

theorem markAsRead_of_read_book_keeps_pending_row:
  "snd (addToReadingList (sample_env []) ''ABC123'' None None
          (snd (markAsRead (sample_env []) ''ABC123'' (Some 5) None empty_store)))
     = read_and_pending_store
   \<and> prisma_findFirst li_googleId ''ABC123'' (readingListItem read_and_pending_store)
       = Some fundacion_item
   \<and> markAsRead (sample_env []) ''ABC123'' (Some 5) None read_and_pending_store
       = (MarkFail ''Este libro ya fue marcado como leido anteriormente'', read_and_pending_store)
   \<and> lr_books (fst (getReadingList None read_and_pending_store)) = [fundacion_item]
   \<and> map_option totalBooksRead
         (stats_of (fst (getReadingStats (sample_env []) None read_and_pending_store))) = Some 1"
  by (simp add: addToReadingList_def markAsRead_def markAsRead_store_def getBookDetails_def
      getReadingList_def getReadingStats_totals prisma_take_def
      sample_env_def empty_store_def read_and_pending_store_def fundacion_def fundacion_info_def
      fundacion_item_def
      fundacion_read_def prisma_create_def prisma_findFirst_def prisma_deleteMany_def emit_def
      details_of_def or_string_def or_null_def or_number_def num_or_null_def Let_def)

subsection \<open>Claim C4: adding the same book twice\<close>

text \<open>
  Claim C4, as the code has it. Let the metadata of \<open>bookId\<close> resolve at both calls and
  let the pending table hold no identifier twice. Calling \<^verbatim>\<open>addToReadingList\<close> twice
  with \<open>bookId\<close> then gives: when \<open>bookId\<close> was not pending, a success that appends one
  row, followed by the duplicate error; when it was pending already, the duplicate error
  both times. In either case the second call changes no row, the table still holds no
  identifier twice and holds \<open>bookId\<close> exactly once, and the uniqueness violation is
  reported with the duplicate message, not with the generic one.
\<close>

theorem addToReadingList_twice:
  assumes first_resolves: "fst (getBookDetails e bookId s) = Details d"
      and second_resolves:
        "fst (getBookDetails e bookId (snd (addToReadingList e bookId priority notes s))) = Details d'"
      and unique: "distinct (map li_googleId (readingListItem s))"
  shows "(let first = addToReadingList e bookId priority notes s;
              second = addToReadingList e bookId priority' notes' (snd first);
              item = \<lparr>li_googleId = bookId, li_title = bd_title d, li_authors = Some (bd_authors d),
                      li_thumbnail = bd_thumbnail d, li_priority = or_string priority ''medium'',
                      li_notes = or_null notes\<rparr>
          in (bookId \<notin> li_googleId ` set (readingListItem s) \<longrightarrow>
                fst first = AddOk (dq @ show_title (bd_title d) @ dq @ '' agregado a tu lista de lectura'') item
                \<and> readingListItem (snd first) = readingListItem s @ [item])
           \<and> (bookId \<in> li_googleId ` set (readingListItem s) \<longrightarrow>
                fst first = AddFail ''Este libro ya esta en tu lista de lectura''
                \<and> readingListItem (snd first) = readingListItem s)
           \<and> fst second = AddFail ''Este libro ya esta en tu lista de lectura''
           \<and> readingListItem (snd second) = readingListItem (snd first)
           \<and> distinct (map li_googleId (readingListItem (snd first)))
           \<and> distinct (map li_googleId (readingListItem (snd second)))
           \<and> length (filter (\<lambda>x. li_googleId x = bookId) (readingListItem (snd second))) = 1)"
proof -
  let ?first = "addToReadingList e bookId priority notes s"
  let ?second = "addToReadingList e bookId priority' notes' (snd ?first)"
  let ?item = "\<lparr>li_googleId = bookId, li_title = bd_title d, li_authors = Some (bd_authors d),
                 li_thumbnail = bd_thumbnail d, li_priority = or_string priority ''medium'',
                 li_notes = or_null notes\<rparr>"
  note one = addToReadingList_resolved [OF first_resolves, of priority "notes"]
  note two = addToReadingList_resolved [OF second_resolves, of priority' notes']
  have listed: "bookId \<in> li_googleId ` set (readingListItem (snd ?first))"
    by (simp add: one Let_def)
  have second: "?second = (AddFail ''Este libro ya esta en tu lista de lectura'',
                           emit (VolumeGet bookId) (snd ?first))"
    using listed by (simp add: two Let_def)
  have unique1: "distinct (map li_googleId (readingListItem (snd ?first)))"
    using unique by (auto simp: one Let_def)
  have once: "length (filter (\<lambda>x. li_googleId x = bookId) (readingListItem (snd ?first))) = 1"
    using unique1 listed by (rule once_if_distinct)
  show ?thesis
    unfolding Let_def
    using unique1 once by (simp add: second) (simp add: one Let_def)
qed

theorem addToReadingList_twice_witness:
  "fst (getBookDetails (sample_env []) ''ABC123'' empty_store)
     = Details (details_of fundacion fundacion_info)
   \<and> ''ABC123'' \<notin> li_googleId ` set (readingListItem empty_store)
   \<and> fst (addToReadingList (sample_env []) ''ABC123'' None None empty_store)
       = AddOk (dq @ ''Fundacion'' @ dq @ '' agregado a tu lista de lectura'') fundacion_item
   \<and> fst (addToReadingList (sample_env []) ''ABC123'' (Some ''high'') None
            (snd (addToReadingList (sample_env []) ''ABC123'' None None empty_store)))
       = AddFail ''Este libro ya esta en tu lista de lectura''
   \<and> readingListItem
         (snd (addToReadingList (sample_env []) ''ABC123'' (Some ''high'') None
            (snd (addToReadingList (sample_env []) ''ABC123'' None None empty_store))))
       = [fundacion_item]"
proof -
  have resolves: "fst (getBookDetails (sample_env []) ''ABC123'' s)
      = Details (details_of fundacion fundacion_info)" for s
    by (simp add: getBookDetails_def sample_env_def fundacion_def Let_def)
  have first_resolves: "fst (getBookDetails (sample_env []) ''ABC123'' empty_store)
      = Details (details_of fundacion fundacion_info)"
    by (rule resolves)
  have second_resolves: "fst (getBookDetails (sample_env []) ''ABC123''
        (snd (addToReadingList (sample_env []) ''ABC123'' None None empty_store)))
      = Details (details_of fundacion fundacion_info)"
    by (rule resolves)
  have unique: "distinct (map li_googleId (readingListItem empty_store))"
    by (simp add: empty_store_def)
  have fresh: "''ABC123'' \<notin> li_googleId ` set (readingListItem empty_store)"
    by (simp add: empty_store_def)
  have item: "\<lparr>li_googleId = ''ABC123'', li_title = bd_title (details_of fundacion fundacion_info),
        li_authors = Some (bd_authors (details_of fundacion fundacion_info)),
        li_thumbnail = bd_thumbnail (details_of fundacion fundacion_info),
        li_priority = or_string None ''medium'', li_notes = or_null None\<rparr> = fundacion_item"
    by (simp add: details_of_def fundacion_info_def fundacion_item_def or_string_def or_null_def)
  have title: "show_title (bd_title (details_of fundacion fundacion_info)) = ''Fundacion''"
    by (simp add: details_of_def fundacion_info_def show_title_def)
  from addToReadingList_twice [OF first_resolves second_resolves unique,
      where priority' = "Some ''high''" and notes' = None]
  show ?thesis
    using fresh first_resolves by (simp add: Let_def item title empty_store_def)
qed

text \<open>
  Claim C4 as the specification words it promises one success among any two calls. In
  the store below \<open>ABC123\<close> is pending already (the store is the one reached from the
  empty store by marking \<open>XYZ789\<close> read and adding \<open>ABC123\<close>); its metadata resolves,
  and both of two further calls report the duplicate: neither succeeds.
\<close>

theorem addToReadingList_twice_on_pending_book:
  "snd (addToReadingList (sample_env []) ''ABC123'' None None
          (snd (markAsRead (sample_env []) ''XYZ789'' (Some 4) None empty_store)))
     = pending_store
   \<and> fst (getBookDetails (sample_env []) ''ABC123'' pending_store)
       = Details (details_of fundacion fundacion_info)
   \<and> fst (addToReadingList (sample_env []) ''ABC123'' None None pending_store)
       = AddFail ''Este libro ya esta en tu lista de lectura''
   \<and> fst (addToReadingList (sample_env []) ''ABC123'' None None
            (snd (addToReadingList (sample_env []) ''ABC123'' None None pending_store)))
       = AddFail ''Este libro ya esta en tu lista de lectura''"
  by (simp add: addToReadingList_def markAsRead_def markAsRead_store_def getBookDetails_def
      sample_env_def empty_store_def pending_store_def fundacion_def fundacion_info_def yo_robot_def
      fundacion_item_def yo_robot_read_def prisma_create_def prisma_findFirst_def
      prisma_deleteMany_def emit_def details_of_def or_string_def or_null_def or_number_def
      num_or_null_def Let_def)

subsection \<open>Claim C5: a book whose metadata does not resolve\<close>

text \<open>
  Claim C5. If \<^verbatim>\<open>getBookDetails\<close> fails for \<open>bookId\<close>, then \<^verbatim>\<open>addToReadingList\<close>
  returns its not-available error and neither table changes; and if moreover no pending
  row matches \<open>bookId\<close>, \<^verbatim>\<open>markAsRead\<close> returns its not-available error and neither
  table changes: no pending row and no read row is created or deleted.
\<close>

theorem unresolved_book_leaves_storage:
  assumes "fst (getBookDetails e bookId s) = DetailsError err"
  shows "fst (addToReadingList e bookId priority notes s)
           = AddUnavailable
               ''No se pudo agregar el libro. El libro no esta disponible en este momento.''
               ''Por favor, intenta buscar el libro de nuevo y selecciona otro resultado.''
       \<and> readingListItem (snd (addToReadingList e bookId priority notes s)) = readingListItem s
       \<and> readBook (snd (addToReadingList e bookId priority notes s)) = readBook s
       \<and> (prisma_findFirst li_googleId bookId (readingListItem s) = None \<longrightarrow>
            fst (markAsRead e bookId rating review s)
              = MarkFail ''No se pudo marcar el libro como leido. El libro no esta disponible.''
            \<and> readingListItem (snd (markAsRead e bookId rating review s)) = readingListItem s
            \<and> readBook (snd (markAsRead e bookId rating review s)) = readBook s)"
  by (simp add: addToReadingList_unresolved [OF assms] markAsRead_unresolved [OF assms]
      prisma_findFirst_None)

theorem unresolved_book_leaves_storage_witness:
  "fst (getBookDetails (sample_env []) ''BAD_ID'' pending_store)
     = DetailsError ''Error al obtener detalles del libro''
   \<and> prisma_findFirst li_googleId ''BAD_ID'' (readingListItem pending_store) = None
   \<and> error_of (RAdd (fst (addToReadingList (sample_env []) ''BAD_ID'' None None pending_store)))
       = Some ''No se pudo agregar el libro. El libro no esta disponible en este momento.''
   \<and> fst (markAsRead (sample_env []) ''BAD_ID'' None None pending_store)
       = MarkFail ''No se pudo marcar el libro como leido. El libro no esta disponible.''
   \<and> readingListItem (snd (addToReadingList (sample_env []) ''BAD_ID'' None None pending_store))
       = [fundacion_item]
   \<and> readBook (snd (addToReadingList (sample_env []) ''BAD_ID'' None None pending_store))
       = [yo_robot_read]
   \<and> readingListItem (snd (markAsRead (sample_env []) ''BAD_ID'' None None pending_store))
       = [fundacion_item]
   \<and> readBook (snd (markAsRead (sample_env []) ''BAD_ID'' None None pending_store))
       = [yo_robot_read]"
proof -
  have fails: "fst (getBookDetails (sample_env []) ''BAD_ID'' pending_store)
     = DetailsError ''Error al obtener detalles del libro''"
    by (simp add: getBookDetails_def sample_env_def Let_def)
  have unlisted: "prisma_findFirst li_googleId ''BAD_ID'' (readingListItem pending_store) = None"
    by (simp add: prisma_findFirst_def pending_store_def fundacion_item_def)
  from unresolved_book_leaves_storage [OF fails, where priority = None and rating = None and review = None]
  show ?thesis
    using fails unlisted by (simp add: pending_store_def)
qed

subsection \<open>Claim C6: the search filters, then truncates\<close>

text \<open>
  Claim C6, as the code has it. For every query and every positive \<open>maxResults\<close> (10
  when the argument is left out), \<^verbatim>\<open>searchBooks\<close> asks the book API for more volumes
  than \<open>maxResults\<close> (twice as many); the list it returns has at most \<open>maxResults\<close>
  books, and every book in it has a non-empty identifier that contains neither known-bad
  pattern and a non-empty title; and when every volume of the API's answer carries an
  identifier, the list is the answer without the volumes whose identifier is empty or
  contains a known-bad pattern or whose title is missing or empty, truncated afterwards
  to \<open>maxResults\<close>. What the search does with an answer in which a volume has no
  identifier at all is not part of this statement (\<open>searchBooks_of_volume_without_id\<close>
  above evaluates such an answer).
\<close>

theorem searchBooks_filters_then_truncates:
  assumes limit: "maxResults = (case maxResults_arg of None \<Rightarrow> 10 | Some m \<Rightarrow> m)"
      and positive: "0 < maxResults"
  shows "trace (snd (searchBooks e query maxResults_arg s))
           = trace s @ [VolumesSearch query (maxResults * 2)]
       \<and> maxResults < maxResults * 2
       \<and> int (length (sr_books (fst (searchBooks e query maxResults_arg s)))) \<le> maxResults
       \<and> (\<forall>b \<in> set (sr_books (fst (searchBooks e query maxResults_arg s))).
             \<exists>i. fb_id b = Some i \<and> i \<noteq> []
                \<and> \<not> str_includes i ''AAAMAAJ'' \<and> \<not> str_includes i ''AAAQBAJ''
                \<and> truthy_string (fb_title b))
       \<and> (\<forall>items. volumes_search e (trace s) query (maxResults * 2) = OkJson (Some items)
              \<and> list_all (\<lambda>i. v_id i \<noteq> None) items \<longrightarrow>
            sr_books (fst (searchBooks e query maxResults_arg s))
              = map to_found_book
                  (take (nat maxResults)
                     (filter (\<lambda>i. hasBasicInfo i \<and> isNotProblematicId i = Some True) items)))"
proof (intro conjI allI impI ballI)
  show "trace (snd (searchBooks e query maxResults_arg s))
           = trace s @ [VolumesSearch query (maxResults * 2)]"
    by (rule trace_searchBooks [OF limit])
next
  show "maxResults < maxResults * 2"
    using positive by simp
next
  show "int (length (sr_books (fst (searchBooks e query maxResults_arg s)))) \<le> maxResults"
    using positive
    by (simp add: sr_books_searchBooks [OF limit] length_slice0
        split: fetched.splits option.splits)
next
  fix b
  assume b: "b \<in> set (sr_books (fst (searchBooks e query maxResults_arg s)))"
  then obtain items valid where
      valid: "filter_valid items = Some valid"
      and b_in: "b \<in> set (map to_found_book (slice0 maxResults valid))"
    by (auto simp: sr_books_searchBooks [OF limit] split: fetched.splits option.splits)
       (metis imageI)
  from b_in obtain item where item: "item \<in> set valid" and b_eq: "b = to_found_book item"
    using positive by (auto simp: slice0_positive dest: in_set_takeD)
  from item filter_valid_Some [OF valid]
  have "hasBasicInfo item" and "isNotProblematicId item = Some True"
    by auto
  then show "\<exists>i. fb_id b = Some i \<and> i \<noteq> []
                \<and> \<not> str_includes i ''AAAMAAJ'' \<and> \<not> str_includes i ''AAAQBAJ''
                \<and> truthy_string (fb_title b)"
    unfolding b_eq by (rule to_found_book_valid)
next
  fix items
  assume given: "volumes_search e (trace s) query (maxResults * 2) = OkJson (Some items)
              \<and> list_all (\<lambda>i. v_id i \<noteq> None) items"
  then have "filter_valid items \<noteq> None"
    by (auto simp: filter_valid_None list_all_iff)
  then obtain valid where valid: "filter_valid items = Some valid"
    by auto
  show "sr_books (fst (searchBooks e query maxResults_arg s))
              = map to_found_book
                  (take (nat maxResults)
                     (filter (\<lambda>i. hasBasicInfo i \<and> isNotProblematicId i = Some True) items))"
    using given positive valid filter_valid_Some [OF valid]
    by (simp add: sr_books_searchBooks [OF limit] slice0_positive)
qed

theorem searchBooks_filters_then_truncates_witness:
  "(0 :: int) < 1
   \<and> searchBooks (sample_env []) ''Asimov'' (Some 1) empty_store
       = (SearchFound [to_found_book fundacion] 1,
          \<lparr>readingListItem = [], readBook = [], trace = [VolumesSearch ''Asimov'' 2]\<rparr>)
   \<and> int (length (sr_books (fst (searchBooks (sample_env []) ''Asimov'' (Some 1) empty_store)))) \<le> 1
   \<and> sr_books (fst (searchBooks (sample_env []) ''Asimov'' None empty_store))
       = [to_found_book fundacion, to_found_book yo_robot]"
proof -
  have limit: "(1 :: int) = (case Some 1 of None \<Rightarrow> 10 | Some m \<Rightarrow> m)"
    by simp
  have positive: "(0 :: int) < 1"
    by simp
  have "int (length (sr_books (fst (searchBooks (sample_env []) ''Asimov'' (Some 1) empty_store)))) \<le> 1"
    using searchBooks_filters_then_truncates [OF limit positive] by blast
  moreover have "searchBooks (sample_env []) ''Asimov'' (Some 1) empty_store
       = (SearchFound [to_found_book fundacion] 1,
          \<lparr>readingListItem = [], readBook = [], trace = [VolumesSearch ''Asimov'' 2]\<rparr>)"
    by code_simp
  moreover have "sr_books (fst (searchBooks (sample_env []) ''Asimov'' None empty_store))
       = [to_found_book fundacion, to_found_book yo_robot]"
    by code_simp
  ultimately show ?thesis
    using positive by blast
qed

text \<open>
  Claim C6 as the specification words it speaks of every \<open>maxResults\<close>. With
  \<open>maxResults = 0\<close> the request asks for 0 volumes, which is not more than
  \<open>maxResults\<close>; with \<open>maxResults = -1\<close> it asks for \<open>-2\<close>, and \<^verbatim>\<open>slice(0, -1)\<close> drops
  only the last valid volume, so the list is longer than \<open>maxResults\<close>.
\<close>

theorem searchBooks_of_nonpositive_maxResults:
  "trace (snd (searchBooks (sample_env []) ''Asimov'' (Some 0) empty_store))
     = [VolumesSearch ''Asimov'' 0]
   \<and> trace (snd (searchBooks (sample_env []) ''Asimov'' (Some (- 1)) empty_store))
       = [VolumesSearch ''Asimov'' (- 2)]
   \<and> sr_books (fst (searchBooks (sample_env []) ''Asimov'' (Some (- 1)) empty_store))
       = [to_found_book fundacion]
   \<and> \<not> int (length (sr_books (fst (searchBooks (sample_env []) ''Asimov'' (Some (- 1)) empty_store))))
         \<le> - 1"
  by code_simp

subsection \<open>Claim C7: the period of the statistics\<close>

text \<open>
  Claim C7. For every state of the read table and any two values of the period
  argument (given or left out), \<^verbatim>\<open>getReadingStats\<close> returns the same result: the
  period never filters the computation.
\<close>

theorem getReadingStats_ignores_period:
  "getReadingStats e period s = getReadingStats e period' s"
  by (simp add: getReadingStats_def)

theorem getReadingStats_ignores_period_witness:
  "getReadingStats (sample_env []) (Some ''month'') pending_store
     = getReadingStats (sample_env []) None pending_store"
  by (rule getReadingStats_ignores_period)

subsection \<open>Claim C8: the average rating and the top authors\<close>

text \<open>
  Claim C8 says that for every state of the read table \<open>topAuthors\<close> holds at most 3
  authors in descending order of their number of occurrences. \<^verbatim>\<open>authorCounts\<close> is a
  plain object, so the first look-up of an author named \<^verbatim>\<open>toString\<close> finds the function
  that every object inherits, and \<^verbatim>\<open>+ 1\<close> makes text of it: on a shelf with two books by
  \<^verbatim>\<open>toString\<close> followed by three by Stanislaw Lem, the count of \<^verbatim>\<open>toString\<close> is a string,
  the comparator answers \<^verbatim>\<open>NaN\<close>, and the author with two books is listed before the
  author with three. (\<open>getReadingStats_of_ordinary_authors\<close> above shows the order and
  the rounding of the claim for shelves without such an author.)
\<close>

theorem getReadingStats_of_author_named_toString:
  "fst (getReadingStats (sample_env []) None toString_shelf)
     = StatsOk \<lparr>totalBooksRead = 5, totalPages = 500, averageRating = ''0.0'',
                topAuthors = [(''toString'', CountText ''function toString() { [native code] }11''),
                              (''Stanislaw Lem'', CountNumber 3)]\<rparr>"
  by code_simp

subsection \<open>Claim C9: a tool call for a tool that does not exist\<close>

text \<open>
  Claim C9 says that every tool call whose name is not one of the six known tool names
  gets a structured error as its tool result, without a throw, and that the turn
  proceeds to the second call of the LLM. \<open>unknown_tool_call_with_parsed_arguments\<close>
  above shows this for turns whose tool calls all have arguments that parse. But
  \<^verbatim>\<open>JSON.parse\<close> reads the arguments of a call before the \<^verbatim>\<open>try\<close> and the \<^verbatim>\<open>switch\<close> see
  its name: below, the LLM asks for the tool \<^verbatim>\<open>deleteBook\<close>, which does not exist, with
  arguments that are not JSON; the request ends with status 500, with no tool message
  for the call and no second call of the LLM.
\<close>

theorem POST_aborts_on_unknown_tool_with_malformed_arguments:
  "POST (sample_env [unknown_broken_call]) (Some user_asks) empty_store
     = (Error500,
        \<lparr>readingListItem = [], readBook = [],
         trace = [ChatCompletion (first_request user_asks)]\<rparr>)"
  by code_simp

subsection \<open>Claim C10: a book read off the list counts no pages\<close>

text \<open>
  Claim C10. Whenever \<^verbatim>\<open>markAsRead\<close> finds a matching pending row, the read row it
  creates has \<open>pageCount\<close> 0; a call that creates none leaves the read table alone. So
  the call never changes the \<open>totalPages\<close> of \<^verbatim>\<open>getReadingStats\<close>. (When the book was
  not read before, a row is created.)
\<close>

theorem markAsRead_of_pending_book_pages:
  assumes pending: "prisma_findFirst li_googleId bookId (readingListItem s) = Some p"
  shows "(let s' = snd (markAsRead e bookId rating review s)
          in (case fst (markAsRead e bookId rating review s) of
                MarkOk msg row \<Rightarrow> rb_pageCount row = Some 0 \<and> readBook s' = readBook s @ [row]
              | MarkFail err \<Rightarrow> readBook s' = readBook s)
           \<and> (bookId \<notin> rb_googleId ` set (readBook s)
                \<longrightarrow> (\<exists>msg row. fst (markAsRead e bookId rating review s) = MarkOk msg row))
           \<and> map_option totalPages (stats_of (fst (getReadingStats e period' s')))
               = map_option totalPages (stats_of (fst (getReadingStats e period s))))"
proof (cases "bookId \<in> rb_googleId ` set (readBook s)")
  case True
  show ?thesis
    by (simp add: Let_def markAsRead_pending [OF pending] markAsRead_store_duplicate [OF True]
        getReadingStats_totals True)
next
  case False
  show ?thesis
    by (simp add: Let_def markAsRead_pending [OF pending] markAsRead_store_fresh [OF False]
        getReadingStats_totals or_number_def)
qed

theorem markAsRead_of_pending_book_pages_witness:
  "prisma_findFirst li_googleId ''ABC123'' (readingListItem pending_store) = Some fundacion_item
   \<and> fst (markAsRead (sample_env []) ''ABC123'' (Some 5) None pending_store)
       = MarkOk (dq @ ''Fundacion'' @ dq @ '' marcado como leido'') fundacion_from_list
   \<and> rb_pageCount fundacion_from_list = Some 0
   \<and> map_option totalPages (stats_of (fst (getReadingStats (sample_env []) None pending_store)))
       = Some 224
   \<and> map_option totalPages
         (stats_of (fst (getReadingStats (sample_env []) None
            (snd (markAsRead (sample_env []) ''ABC123'' (Some 5) None pending_store))))) = Some 224"
proof -
  have pending: "prisma_findFirst li_googleId ''ABC123'' (readingListItem pending_store) = Some fundacion_item"
    by (simp add: prisma_findFirst_def pending_store_def fundacion_item_def)
  have run: "fst (markAsRead (sample_env []) ''ABC123'' (Some 5) None pending_store)
       = MarkOk (dq @ ''Fundacion'' @ dq @ '' marcado como leido'') fundacion_from_list"
    by (simp add: markAsRead_def markAsRead_store_def prisma_findFirst_def prisma_create_def
        prisma_deleteMany_def pending_store_def fundacion_item_def yo_robot_read_def
        fundacion_from_list_def or_string_def or_null_def num_or_null_def show_title_def Let_def)
  have before: "map_option totalPages (stats_of (fst (getReadingStats (sample_env []) None pending_store)))
       = Some 224"
    by (simp add: getReadingStats_totals pending_store_def yo_robot_read_def or_number_def)
  have "map_option totalPages
         (stats_of (fst (getReadingStats (sample_env []) None
            (snd (markAsRead (sample_env []) ''ABC123'' (Some 5) None pending_store)))))
        = map_option totalPages (stats_of (fst (getReadingStats (sample_env []) None pending_store)))"
    using markAsRead_of_pending_book_pages [OF pending, where e = "sample_env []"
        and rating = "Some 5" and review = None and period = None and period' = None]
    unfolding Let_def by blast
  then have after: "map_option totalPages
         (stats_of (fst (getReadingStats (sample_env []) None
            (snd (markAsRead (sample_env []) ''ABC123'' (Some 5) None pending_store)))))
        = Some 224"
    using before by simp
  have zero: "rb_pageCount fundacion_from_list = Some 0"
    by (simp add: fundacion_from_list_def)
  show ?thesis
    using pending run zero before after by blast
qed

end
